theory Spec2Isabelle
  imports Main "HOL-Library.AList" "HOL-Library.Multiset"
begin

section \<open>WeatherAlerts: TTL cache store, bulk fetch, task runner, purge\<close>

text \<open>
  A shallow embedding of \<^verbatim>\<open>services/database.py\<close>,
  \<^verbatim>\<open>services/weather_service copy.py\<close>, \<^verbatim>\<open>utils/background.py\<close> and the
  alert task of \<^verbatim>\<open>routes/api_routes.py\<close>.

  \<^item> The two SQLite tables are lists of rows; \<^verbatim>\<open>SELECT\<close> and \<^verbatim>\<open>DELETE\<close> are
    filters over the list, \<^verbatim>\<open>INSERT OR REPLACE\<close> drops the rows with the same
    primary key and adds the new one.
  \<^item> Timestamps are seconds as \<open>int\<close>. The code reads two clocks: SQLite's
    \<^verbatim>\<open>CURRENT_TIMESTAMP\<close> (UTC) and Python's \<^verbatim>\<open>datetime.now()\<close> (local
    time); both readings are inputs of the model.
  \<^item> A Python exception is a branch of the model: the functions of
    \<^verbatim>\<open>database.py\<close> swallow every exception, so each branch ends in the value
    the \<^verbatim>\<open>except\<close> clause returns. The store itself is taken to be reachable.
    Two ways in which the engine rejects a statement are inputs of the model: a
    row-value \<^verbatim>\<open>IN\<close> that it does not know (the code then takes its fallback),
    and more bound parameters than it allows in the batch read of the weather cache.
  \<^item> A Python \<^verbatim>\<open>dict\<close> that the code builds and returns is an association list
    in insertion order, written with \<^const>\<open>AList.update\<close> and read with
    \<^const>\<open>map_of\<close>.
  \<^item> The standard library's \<^verbatim>\<open>json.loads\<close>/\<^verbatim>\<open>json.dumps\<close>, and the modules
    of the repository that are not among its source files (\<^verbatim>\<open>config\<close>,
    \<^verbatim>\<open>utils.validation\<close>, \<^verbatim>\<open>services.alert_service\<close>), are parameters.
\<close>

subsection \<open>Strings: \<^verbatim>\<open>str(int)\<close> and SQLite's \<^verbatim>\<open>LIKE\<close>\<close>

definition digit_char :: "nat \<Rightarrow> char" where
  "digit_char d = ''0123456789'' ! d"

function str_nat :: "nat \<Rightarrow> string" where
  "str_nat n = (if n < 10 then [digit_char n] else str_nat (n div 10) @ [digit_char (n mod 10)])"
  by pat_completeness auto
termination
  by (relation "measure id") auto

declare str_nat.simps [simp del]

text \<open>\<^verbatim>\<open>str(n)\<close> for a Python int, as the f-strings of the source render it.\<close>

definition str_int :: "int \<Rightarrow> string" where
  "str_int i = (if i < 0 then CHR ''-'' # str_nat (nat (- i)) else str_nat (nat i))"

text \<open>SQLite's \<^verbatim>\<open>LIKE\<close> folds the case of ASCII letters.\<close>

definition ascii_lower :: "char \<Rightarrow> char" where
  "ascii_lower c =
     (let n = (of_char c :: nat) in if 65 \<le> n \<and> n \<le> 90 then char_of (n + 32) else c)"

text \<open>
  \<open>like pattern text\<close>: \<^verbatim>\<open>text LIKE pattern\<close>. In the pattern \<^verbatim>\<open>%\<close> matches any
  run of characters, \<^verbatim>\<open>_\<close> exactly one character, every other character itself up
  to ASCII case.
\<close>

fun like :: "string \<Rightarrow> string \<Rightarrow> bool" where
  "like [] [] = True"
| "like [] (c # cs) = False"
| "like (p # ps) [] = (if p = CHR ''%'' then like ps [] else False)"
| "like (p # ps) (c # cs) =
     (if p = CHR ''%'' then like ps (c # cs) \<or> like (p # ps) cs
      else (p = CHR ''_'' \<or> ascii_lower p = ascii_lower c) \<and> like ps cs)"

subsection \<open>The tables\<close>

type_synonym timestamp = int

text \<open>\<^verbatim>\<open>weather_cache(cache_key PRIMARY KEY, data, created_at, expires_at)\<close>\<close>

record cache_row =
  cache_key :: string
  data :: string
  created_at :: timestamp
  expires_at :: timestamp

text \<open>
  \<^verbatim>\<open>alerts(province, district, forecast_days, alert_text, created_at, expires_at)\<close>
  with primary key \<^verbatim>\<open>(province, district, forecast_days)\<close>.
\<close>

record alert_row =
  province :: string
  district :: string
  forecast_days :: int
  alert_text :: string
  alert_created_at :: timestamp
  alert_expires_at :: timestamp

record database =
  weather_cache :: "cache_row list"
  alerts :: "alert_row list"

text \<open>
  \<^verbatim>\<open>DELETE FROM t WHERE P\<close>: the rows left, and \<^verbatim>\<open>cursor.rowcount\<close>, the number
  of rows deleted.
\<close>

definition sql_delete :: "('r \<Rightarrow> bool) \<Rightarrow> 'r list \<Rightarrow> 'r list" where
  "sql_delete P rows = filter (\<lambda>r. \<not> P r) rows"

definition rowcount :: "('r \<Rightarrow> bool) \<Rightarrow> 'r list \<Rightarrow> nat" where
  "rowcount P rows = length (filter P rows)"

text \<open>The two clocks the code reads.\<close>

record clock =
  current_timestamp :: timestamp
  datetime_now :: timestamp

subsection \<open>\<^verbatim>\<open>purge_cache_db\<close>\<close>

text \<open>
  One turn of the loop over \<^verbatim>\<open>districts\<close>: \<^verbatim>\<open>count\<close> so far (\<open>cnt\<close>) and
  the database.
\<close>

definition purge_district ::
  "string \<Rightarrow> int \<Rightarrow> string \<Rightarrow> nat \<times> database \<Rightarrow> nat \<times> database" where
  "purge_district prov days d st =
     (case st of (cnt, db) \<Rightarrow>
        let hit = (\<lambda>r. province r = prov \<and> district r = d \<and> forecast_days r = days);
            k1 = ''forecast_'' @ prov @ ''_'' @ d @ ''_'' @ str_int days;
            k2 = ''alerts_'' @ prov @ ''_'' @ str_int days @ ''_'' @ d
        in (cnt + rowcount hit (alerts db),
            db\<lparr>alerts := sql_delete hit (alerts db),
               weather_cache :=
                 sql_delete (\<lambda>r. cache_key r = k1 \<or> cache_key r = k2) (weather_cache db)\<rparr>))"

definition purge_cache_db ::
  "string \<Rightarrow> string list \<Rightarrow> int \<Rightarrow> database \<Rightarrow> nat \<times> database" where
  "purge_cache_db prov districts days db =
     (if districts = [] then
        let hit = (\<lambda>r. province r = prov \<and> forecast_days r = days);
            p1 = ''forecast_'' @ prov @ ''_%_'' @ str_int days;
            p2 = ''alerts_'' @ prov @ ''_'' @ str_int days @ ''_%''
        in (rowcount hit (alerts db),
            db\<lparr>alerts := sql_delete hit (alerts db),
               weather_cache :=
                 sql_delete (\<lambda>r. like p1 (cache_key r) \<or> like p2 (cache_key r))
                   (weather_cache db)\<rparr>)
      else fold (purge_district prov days) districts (0, db))"

subsection \<open>Payloads\<close>

text \<open>
  A decoded JSON document. Numbers are integers here: the code never computes with a
  payload, it only tests its truth value.
\<close>

datatype json =
    JNull
  | JBool bool
  | JNum int
  | JStr string
  | JList "json list"
  | JDict "(string \<times> json) list"

text \<open>Python's truth value of a decoded document (\<^verbatim>\<open>if data:\<close>).\<close>

fun truthy :: "json \<Rightarrow> bool" where
  "truthy JNull = False"
| "truthy (JBool b) = b"
| "truthy (JNum n) = (n \<noteq> 0)"
| "truthy (JStr s) = (s \<noteq> [])"
| "truthy (JList xs) = (xs \<noteq> [])"
| "truthy (JDict kvs) = (kvs \<noteq> [])"

text \<open>
  \<^verbatim>\<open>json.loads\<close> and \<^verbatim>\<open>json.dumps\<close>; \<open>None\<close> is a raised exception.
\<close>

type_synonym loads = "string \<Rightarrow> json option"
type_synonym dumps = "json \<Rightarrow> string option"

subsection \<open>Single-key reads and writes of \<^verbatim>\<open>weather_cache\<close>\<close>

text \<open>
  \<^verbatim>\<open>SELECT data, created_at FROM weather_cache WHERE cache_key = ? AND expires_at >
  CURRENT_TIMESTAMP\<close>, then \<^verbatim>\<open>fetchone()\<close>.
\<close>

definition select_live :: "clock \<Rightarrow> string \<Rightarrow> cache_row list \<Rightarrow> cache_row option" where
  "select_live clk k rows =
     find (\<lambda>r. cache_key r = k \<and> current_timestamp clk < expires_at r) rows"

text \<open>
  \<^verbatim>\<open>get_weather_cache\<close>: the payload is decoded and turned into a DataFrame
  (\<open>from_records\<close>, pandas); when either step raises, the inner \<^verbatim>\<open>except\<close>
  deletes the row of the key, and the function returns \<^verbatim>\<open>None\<close>.
\<close>

definition get_weather_cache ::
  "loads \<Rightarrow> (json \<Rightarrow> 'df option) \<Rightarrow> clock \<Rightarrow> database \<Rightarrow> string \<Rightarrow> 'df option \<times> database" where
  "get_weather_cache json_loads from_records clk db k =
     (case select_live clk k (weather_cache db) of
        None \<Rightarrow> (None, db)
      | Some row \<Rightarrow>
          (case Option.bind (json_loads (data row)) from_records of
             Some df \<Rightarrow> (Some df, db)
           | None \<Rightarrow>
               (None,
                db\<lparr>weather_cache := sql_delete (\<lambda>r. cache_key r = k) (weather_cache db)\<rparr>)))"

text \<open>
  \<^verbatim>\<open>get_raw_weather_cache\<close>: there is no inner \<^verbatim>\<open>try\<close>; when
  \<^verbatim>\<open>json.loads\<close> raises, the connection's context manager rolls back and the
  outer \<^verbatim>\<open>except\<close> returns \<^verbatim>\<open>None\<close>. No statement of this function writes.
\<close>

definition get_raw_weather_cache ::
  "loads \<Rightarrow> clock \<Rightarrow> database \<Rightarrow> string \<Rightarrow> (json \<times> timestamp) option \<times> database" where
  "get_raw_weather_cache json_loads clk db k =
     (case select_live clk k (weather_cache db) of
        None \<Rightarrow> (None, db)
      | Some row \<Rightarrow>
          (case json_loads (data row) of
             None \<Rightarrow> (None, db)
           | Some data_dict \<Rightarrow> (Some (data_dict, created_at row), db)))"

text \<open>\<^verbatim>\<open>INSERT OR REPLACE\<close>: rows with the new row's primary key go, the row is added.\<close>

definition insert_or_replace :: "('r \<Rightarrow> bool) \<Rightarrow> 'r \<Rightarrow> 'r list \<Rightarrow> 'r list" where
  "insert_or_replace same_key new rows = filter (\<lambda>r. \<not> same_key r) rows @ [new]"

text \<open>
  \<^verbatim>\<open>set_raw_weather_cache\<close>: \<^verbatim>\<open>created_at\<close> is the store's
  \<^verbatim>\<open>CURRENT_TIMESTAMP\<close>, \<^verbatim>\<open>expires_at\<close> is Python's \<^verbatim>\<open>datetime.now()\<close>
  plus \<^verbatim>\<open>Config.CACHE_TIME\<close> seconds. When \<^verbatim>\<open>json.dumps\<close> raises, nothing is
  written and nothing is raised.
\<close>

definition set_raw_weather_cache ::
  "dumps \<Rightarrow> int \<Rightarrow> clock \<Rightarrow> database \<Rightarrow> string \<Rightarrow> json \<Rightarrow> database" where
  "set_raw_weather_cache json_dumps config_cache_time clk db k v =
     (case json_dumps v of
        None \<Rightarrow> db
      | Some data_json \<Rightarrow>
          db\<lparr>weather_cache :=
               insert_or_replace (\<lambda>r. cache_key r = k)
                 \<lparr>cache_key = k, data = data_json,
                  created_at = current_timestamp clk,
                  expires_at = datetime_now clk + config_cache_time\<rparr>
                 (weather_cache db)\<rparr>)"

subsection \<open>Batch reads\<close>

text \<open>
  \<^verbatim>\<open>get_raw_weather_cache_batch\<close>: one \<^verbatim>\<open>SELECT ... WHERE cache_key IN (...) AND
  expires_at > CURRENT_TIMESTAMP\<close> with one bound parameter per key; a row whose
  payload does not decode is skipped (\<^verbatim>\<open>continue\<close>). \<open>max_variable_number\<close> is
  the engine's limit on the bound parameters of one statement
  (\<^verbatim>\<open>SQLITE_MAX_VARIABLE_NUMBER\<close>, 999 in SQLite before 3.32): with more keys
  \<^verbatim>\<open>cursor.execute\<close> raises, and the outer \<^verbatim>\<open>except\<close> returns \<^verbatim>\<open>results\<close>,
  still empty. The source notes: \<^verbatim>\<open>For now assuming < 999 keys\<close>.
\<close>

definition batch_row ::
  "loads \<Rightarrow> cache_row \<Rightarrow> (string \<times> json \<times> timestamp) list \<Rightarrow> (string \<times> json \<times> timestamp) list" where
  "batch_row json_loads r results =
     (case json_loads (data r) of
        None \<Rightarrow> results
      | Some data_dict \<Rightarrow> AList.update (cache_key r) (data_dict, created_at r) results)"

definition get_raw_weather_cache_batch ::
  "nat \<Rightarrow> loads \<Rightarrow> clock \<Rightarrow> database \<Rightarrow> string list \<Rightarrow> (string \<times> json \<times> timestamp) list" where
  "get_raw_weather_cache_batch max_variable_number json_loads clk db cache_keys =
     (if cache_keys = [] then []
      else if max_variable_number < length cache_keys then []
      else fold (batch_row json_loads)
             (filter (\<lambda>r. cache_key r \<in> set cache_keys \<and> current_timestamp clk < expires_at r)
                (weather_cache db))
             [])"

type_synonym alert_key = "string \<times> string \<times> int"

definition key_of :: "alert_row \<Rightarrow> alert_key" where
  "key_of r = (province r, district r, forecast_days r)"

text \<open>
  The \<^verbatim>\<open>WHERE\<close> clauses of \<^verbatim>\<open>get_alerts_batch\<close> as expressions:
  \<open>KeyIn\<close> is \<^verbatim>\<open>(province, district, forecast_days) IN (VALUES ...)\<close>,
  \<open>KeyEq\<close> is \<^verbatim>\<open>(province = ? AND district = ? AND forecast_days = ?)\<close>,
  \<open>Live\<close> is \<^verbatim>\<open>expires_at > CURRENT_TIMESTAMP\<close>.
\<close>

datatype sql_expr =
    KeyIn "alert_key list"
  | KeyEq alert_key
  | Live
  | And sql_expr sql_expr
  | Or sql_expr sql_expr

fun holds :: "clock \<Rightarrow> sql_expr \<Rightarrow> alert_row \<Rightarrow> bool" where
  "holds clk (KeyIn ks) r = (key_of r \<in> set ks)"
| "holds clk (KeyEq k) r = (key_of r = k)"
| "holds clk Live r = (current_timestamp clk < alert_expires_at r)"
| "holds clk (And a b) r = (holds clk a r \<and> holds clk b r)"
| "holds clk (Or a b) r = (holds clk a r \<or> holds clk b r)"

text \<open>The first query: \<^verbatim>\<open>WHERE (...) IN (VALUES ...) AND expires_at > CURRENT_TIMESTAMP\<close>.\<close>

definition tuple_in_where :: "alert_key list \<Rightarrow> sql_expr" where
  "tuple_in_where ks = And (KeyIn ks) Live"

text \<open>
  The fallback: \<^verbatim>\<open>WHERE {' OR '.join(conditions)} AND expires_at > CURRENT_TIMESTAMP\<close>.
  Each condition carries its own parentheses, the joined chain carries none, and in
  SQL \<^verbatim>\<open>AND\<close> binds tighter than \<^verbatim>\<open>OR\<close>: the text
  \<^verbatim>\<open>c1 OR c2 OR c3 AND live\<close> is the expression \<^verbatim>\<open>c1 OR c2 OR (c3 AND live)\<close>.
  The list is never empty here: the function returns before for an empty list.
\<close>

fun or_chain_where :: "alert_key list \<Rightarrow> sql_expr" where
  "or_chain_where [] = Live"
| "or_chain_where [k] = And (KeyEq k) Live"
| "or_chain_where (k # k' # ks) = Or (KeyEq k) (or_chain_where (k' # ks))"

definition alert_result_row ::
  "alert_row \<Rightarrow> (alert_key \<times> string) list \<Rightarrow> (alert_key \<times> string) list" where
  "alert_result_row r results = AList.update (key_of r) (alert_text r) results"

text \<open>
  \<^verbatim>\<open>get_alerts_batch\<close>; \<open>tuple_syntax\<close> says whether the engine accepts the
  first query (otherwise \<^verbatim>\<open>sqlite3.OperationalError\<close> and the fallback).
\<close>

definition get_alerts_batch ::
  "bool \<Rightarrow> clock \<Rightarrow> database \<Rightarrow> alert_key list \<Rightarrow> (alert_key \<times> string) list" where
  "get_alerts_batch tuple_syntax clk db province_district_days =
     (if province_district_days = [] then []
      else
        let query = (if tuple_syntax then tuple_in_where province_district_days
                     else or_chain_where province_district_days)
        in fold alert_result_row (filter (holds clk query) (alerts db)) [])"

subsection \<open>\<^verbatim>\<open>WeatherService.get_bulk_weather_data\<close>\<close>

text \<open>
  What \<^verbatim>\<open>self.session.get\<close> gives for one district, after the adapter's retries:
  a response with its status code and what \<^verbatim>\<open>response.json()\<close> does (\<open>Inl\<close>: it
  raises), or an exception of the transport.
\<close>

datatype http_outcome =
    Response int "string + json"
  | Transport_error string

text \<open>
  The surroundings of one call. \<open>'c\<close> is a pair of coordinates;
  \<open>sanitize_filename\<close> (\<^verbatim>\<open>utils.validation\<close>) and \<open>CACHE_TIME\<close>
  (\<^verbatim>\<open>config.Config\<close>) are not among the source files. \<open>as_completed\<close> is the
  order in which the pool's futures finish.
\<close>

type_synonym 'c district_info = "string \<times> 'c \<times> string"

record 'c world =
  json_loads :: loads
  json_dumps :: dumps
  CACHE_TIME :: int
  sanitize_filename :: "string \<Rightarrow> string"
  session_get :: "'c \<Rightarrow> int \<Rightarrow> http_outcome"
  as_completed :: "'c district_info list \<Rightarrow> 'c district_info list"
  now :: clock

text \<open>\<^verbatim>\<open>f"weather_{forecast_days}_{province}_{sanitized_district}"\<close>\<close>

definition weather_key :: "(string \<Rightarrow> string) \<Rightarrow> int \<Rightarrow> string \<Rightarrow> string \<Rightarrow> string" where
  "weather_key sanitize days prov district_name =
     ''weather_'' @ str_int days @ ''_'' @ prov @ ''_'' @ sanitize district_name"

text \<open>
  A district is a hit when the store returns a row for its key and the row's age,
  \<^verbatim>\<open>datetime.now() - created_at\<close>, is below \<open>cache_time\<close>.
\<close>

definition cache_hit :: "'c world \<Rightarrow> string \<Rightarrow> int \<Rightarrow> int \<Rightarrow> database \<Rightarrow> string \<Rightarrow> json option" where
  "cache_hit w prov days cache_time db district_name =
     (case fst (get_raw_weather_cache (json_loads w) (now w) db
                  (weather_key (sanitize_filename w) days prov district_name)) of
        None \<Rightarrow> None
      | Some (data_dict, created) \<Rightarrow>
          if datetime_now (now w) - created < cache_time then Some data_dict else None)"

text \<open>One turn of the loop over \<^verbatim>\<open>districts.items()\<close>.\<close>

definition classify_district ::
  "'c world \<Rightarrow> string \<Rightarrow> int \<Rightarrow> int \<Rightarrow> database \<Rightarrow> string \<times> 'c \<Rightarrow>
     'c district_info list \<times> (string \<times> json) list \<Rightarrow>
     'c district_info list \<times> (string \<times> json) list" where
  "classify_district w prov days cache_time db d st =
     (case d of (district_name, coords) \<Rightarrow>
      case st of (uncached, cached_data) \<Rightarrow>
        (case cache_hit w prov days cache_time db district_name of
           Some data_dict \<Rightarrow> (uncached, AList.update district_name data_dict cached_data)
         | None \<Rightarrow>
             (uncached @
                [(district_name, coords, weather_key (sanitize_filename w) days prov district_name)],
              cached_data)))"

text \<open>\<^verbatim>\<open>fetch_single_district\<close>: every exception becomes the fourth component.\<close>

definition fetch_single_district ::
  "'c world \<Rightarrow> int \<Rightarrow> 'c district_info \<Rightarrow> string \<times> json option \<times> string \<times> string option" where
  "fetch_single_district w days info =
     (case info of (district_name, coords, key) \<Rightarrow>
        (case session_get w coords days of
           Response status body \<Rightarrow>
             if status = 200 then
               (case body of
                  Inr data_dict \<Rightarrow> (district_name, Some data_dict, key, None)
                | Inl e \<Rightarrow> (district_name, None, key, Some e))
             else (district_name, None, key, Some (''HTTP '' @ str_int status))
         | Transport_error e \<Rightarrow> (district_name, None, key, Some e)))"

text \<open>
  The body of the loop over the finished futures: \<^verbatim>\<open>if data:\<close> writes the
  payload to the store and to the result, otherwise the failure is only logged.
\<close>

definition handle_result ::
  "'c world \<Rightarrow> string \<times> json option \<times> string \<times> string option \<Rightarrow>
     (string \<times> json) list \<times> database \<Rightarrow> (string \<times> json) list \<times> database" where
  "handle_result w res st =
     (case res of (district_name, data_opt, key, error) \<Rightarrow>
      case st of (cached_data, db) \<Rightarrow>
        (case data_opt of
           None \<Rightarrow> (cached_data, db)
         | Some data_dict \<Rightarrow>
             if truthy data_dict then
               (AList.update district_name data_dict cached_data,
                set_raw_weather_cache (json_dumps w) (CACHE_TIME w) (now w) db key data_dict)
             else (cached_data, db)))"

record 'c bulk =
  returned :: "(string \<times> json) list"
  store :: database
  fetch_calls :: "'c district_info list"

text \<open>
  \<^verbatim>\<open>get_bulk_weather_data\<close>. \<open>districts\<close> is \<^verbatim>\<open>districts.items()\<close>;
  \<open>cache_time\<close> is the optional argument. Beside the returned dict the model gives
  the store afterwards and the calls of \<^verbatim>\<open>fetch_single_district\<close> submitted to
  the pool.
\<close>

definition get_bulk_weather_data ::
  "'c world \<Rightarrow> string \<Rightarrow> (string \<times> 'c) list \<Rightarrow> int \<Rightarrow> int option \<Rightarrow> database \<Rightarrow> 'c bulk" where
  "get_bulk_weather_data w prov districts days cache_time db =
     (let ttl = (case cache_time of None \<Rightarrow> CACHE_TIME w | Some t \<Rightarrow> t);
          (uncached, cached_data) = fold (classify_district w prov days ttl db) districts ([], [])
      in if uncached = [] then
           \<lparr>returned = cached_data, store = db, fetch_calls = []\<rparr>
         else
           let results = map (fetch_single_district w days) (as_completed w uncached);
               (cached_data', db') = fold (handle_result w) results (cached_data, db)
           in \<lparr>returned = cached_data', store = db', fetch_calls = uncached\<rparr>)"

subsection \<open>\<^verbatim>\<open>BackgroundTaskManager\<close>\<close>

text \<open>
  What the unit of work does: it returns a value, it raises an \<^verbatim>\<open>Exception\<close>
  whose \<^verbatim>\<open>str\<close> is given, or it ends in a \<^verbatim>\<open>BaseException\<close> that is no
  \<^verbatim>\<open>Exception\<close> (\<^verbatim>\<open>SystemExit\<close>, \<^verbatim>\<open>KeyboardInterrupt\<close>,
  \<^verbatim>\<open>GeneratorExit\<close>), given by its name.
\<close>

datatype 'r outcome = Returned 'r | Raised string | Exited string

text \<open>
  \<open>tasks\<close> maps a task id to its thread, \<open>alive\<close> are the threads that run.
\<close>

record 'r manager =
  tasks :: "string \<rightharpoonup> nat"
  task_results :: "string \<rightharpoonup> 'r"
  task_errors :: "string \<rightharpoonup> string"
  alive :: "nat set"

text \<open>\<^verbatim>\<open>__init__\<close>\<close>

definition new_manager :: "'r manager" where
  "new_manager = \<lparr>tasks = Map.empty, task_results = Map.empty, task_errors = Map.empty, alive = {}\<rparr>"

text \<open>\<^verbatim>\<open>run_task\<close>: the thread \<open>th\<close> is stored under the id and started.\<close>

definition run_task :: "'r manager \<Rightarrow> string \<Rightarrow> nat \<Rightarrow> 'r manager" where
  "run_task m task_id th = m\<lparr>tasks := (tasks m)(task_id \<mapsto> th), alive := insert th (alive m)\<rparr>"

text \<open>
  \<^verbatim>\<open>wrapper\<close>, run by thread \<open>th\<close> to its end: the result is recorded, or the
  error that \<^verbatim>\<open>except Exception\<close> catches; \<^verbatim>\<open>finally\<close> drops the id from
  \<open>tasks\<close>, and the thread ends. The second component is the exception that leaves
  \<^verbatim>\<open>wrapper\<close>: the one \<^verbatim>\<open>except Exception\<close> does not catch, raised again
  after \<^verbatim>\<open>finally\<close>.
\<close>

definition wrapper ::
  "'r manager \<Rightarrow> string \<Rightarrow> nat \<Rightarrow> 'r outcome \<Rightarrow> 'r manager \<times> string option" where
  "wrapper m task_id th out =
     (let m1 = (case out of
                  Returned result \<Rightarrow> m\<lparr>task_results := (task_results m)(task_id \<mapsto> result)\<rparr>
                | Raised e \<Rightarrow> m\<lparr>task_errors := (task_errors m)(task_id \<mapsto> e)\<rparr>
                | Exited b \<Rightarrow> m);
          m2 = (if tasks m1 task_id \<noteq> None then m1\<lparr>tasks := (tasks m1)(task_id := None)\<rparr> else m1)
      in (m2\<lparr>alive := alive m2 - {th}\<rparr>,
          case out of Exited b \<Rightarrow> Some b | _ \<Rightarrow> None))"

definition is_running :: "'r manager \<Rightarrow> string \<Rightarrow> bool" where
  "is_running m task_id = (case tasks m task_id of None \<Rightarrow> False | Some th \<Rightarrow> th \<in> alive m)"

definition get_result :: "'r manager \<Rightarrow> string \<Rightarrow> 'r option" where
  "get_result m task_id = task_results m task_id"

definition get_error :: "'r manager \<Rightarrow> string \<Rightarrow> string option" where
  "get_error m task_id = task_errors m task_id"

text \<open>
  What happens on a manager, in the order in which it happens: a call of
  \<^verbatim>\<open>run_task\<close>, or the \<^verbatim>\<open>wrapper\<close> of a thread reaching its end.
\<close>

datatype 'r event = Scheduled string nat | Finished string nat "'r outcome"

fun event_task :: "'r event \<Rightarrow> string" where
  "event_task (Scheduled task_id th) = task_id"
| "event_task (Finished task_id th out) = task_id"

fun step :: "'r event \<Rightarrow> 'r manager \<Rightarrow> 'r manager" where
  "step (Scheduled task_id th) m = run_task m task_id th"
| "step (Finished task_id th out) m = fst (wrapper m task_id th out)"

definition run_events :: "'r event list \<Rightarrow> 'r manager \<Rightarrow> 'r manager" where
  "run_events es m = fold step es m"

text \<open>
  One task among others: it is scheduled, other events happen while its unit of work
  runs (\<open>during\<close>), its wrapper ends, other events follow (\<open>later\<close>). The manager
  at the end, and the exception that left the task's wrapper.
\<close>

definition task_life ::
  "'r manager \<Rightarrow> string \<Rightarrow> nat \<Rightarrow> 'r event list \<Rightarrow> 'r outcome \<Rightarrow> 'r event list \<Rightarrow>
     'r manager \<times> string option" where
  "task_life m task_id th during out later =
     (case wrapper (run_events during (run_task m task_id th)) task_id th out of
        (m', raised) \<Rightarrow> (run_events later m', raised))"

subsection \<open>The alert task of \<^verbatim>\<open>generate_alerts\<close>\<close>

text \<open>
  \<^verbatim>\<open>generate_alerts_task\<close>. The steps after the fetch (DataFrames, the alert
  service's generator, purge and save) call \<^verbatim>\<open>services.alert_service\<close>, which is
  not among the source files: they are the parameter \<open>alert_steps\<close>, from the
  fetched data and the store to how the steps end and the store they leave. The
  task returns Python's \<^verbatim>\<open>None\<close> (here \<open>Returned None\<close>) when the fetch gave
  nothing.
\<close>

definition generate_alerts_task ::
  "'c world \<Rightarrow> ((string \<times> json) list \<Rightarrow> database \<Rightarrow> 'a outcome \<times> database) \<Rightarrow>
     string \<Rightarrow> (string \<times> 'c) list \<Rightarrow> int \<Rightarrow> database \<Rightarrow> 'a option outcome \<times> database" where
  "generate_alerts_task w alert_steps prov districts_to_fetch days db =
     (let b = get_bulk_weather_data w prov districts_to_fetch days (Some 0) db;
          weather_data = returned b
      in if weather_data = [] then (Returned None, store b)
         else (case alert_steps weather_data (store b) of
                 (Returned r, db') \<Rightarrow> (Returned (Some r), db')
               | (Raised e, db') \<Rightarrow> (Raised e, db')
               | (Exited b, db') \<Rightarrow> (Exited b, db')))"

text \<open>
  \<^verbatim>\<open>background_tasks.run_task(task_id, generate_alerts_task)\<close>, followed to the end
  of the thread.
\<close>

definition run_generate_alerts ::
  "'a option manager \<Rightarrow> string \<Rightarrow> nat \<Rightarrow> 'c world \<Rightarrow>
     ((string \<times> json) list \<Rightarrow> database \<Rightarrow> 'a outcome \<times> database) \<Rightarrow>
     string \<Rightarrow> (string \<times> 'c) list \<Rightarrow> int \<Rightarrow> database \<Rightarrow> 'a option manager \<times> database" where
  "run_generate_alerts m task_id th w alert_steps prov districts_to_fetch days db =
     (case generate_alerts_task w alert_steps prov districts_to_fetch days db of
        (out, db') \<Rightarrow> (fst (wrapper (run_task m task_id th) task_id th out), db'))"

subsection \<open>What the claims speak of\<close>

text \<open>
  The alert rows a purge for \<open>(prov, districts, days)\<close> is to delete: the rows of
  the province and horizon, of every district when the list is empty, of the listed
  districts otherwise.
\<close>

definition purged :: "string \<Rightarrow> string list \<Rightarrow> int \<Rightarrow> alert_row \<Rightarrow> bool" where
  "purged prov districts days r =
     (province r = prov \<and> forecast_days r = days \<and> (districts = [] \<or> district r \<in> set districts))"

text \<open>
  What \<^verbatim>\<open>get_raw_weather_cache_batch\<close> is to return for a key: the payload and
  \<^verbatim>\<open>created_at\<close> of the key's row, when the key was asked for, the row is there,
  its \<^verbatim>\<open>expires_at\<close> is in the future and its payload decodes.
\<close>

definition batch_entry ::
  "loads \<Rightarrow> clock \<Rightarrow> database \<Rightarrow> string list \<Rightarrow> string \<Rightarrow> (json \<times> timestamp) option" where
  "batch_entry ld clk db cache_keys k =
     (if k \<in> set cache_keys then
        (case find (\<lambda>r. cache_key r = k) (weather_cache db) of
           None \<Rightarrow> None
         | Some r \<Rightarrow>
             if current_timestamp clk < expires_at r
             then map_option (\<lambda>d. (d, created_at r)) (ld (data r))
             else None)
      else None)"

text \<open>
  The effective TTL of a call of \<^verbatim>\<open>get_bulk_weather_data\<close>, the districts of a
  request that are not hits (expired or never cached), each with its key, and what a
  fetch contributes to the result: the payload, when there is one and it is true in
  Python's sense.
\<close>

definition effective_ttl :: "'c world \<Rightarrow> int option \<Rightarrow> int" where
  "effective_ttl w cache_time = (case cache_time of None \<Rightarrow> CACHE_TIME w | Some t \<Rightarrow> t)"

definition misses ::
  "'c world \<Rightarrow> string \<Rightarrow> int \<Rightarrow> int \<Rightarrow> database \<Rightarrow> (string \<times> 'c) list \<Rightarrow> 'c district_info list" where
  "misses w prov days ttl db districts =
     map (\<lambda>(n, coords). (n, coords, weather_key (sanitize_filename w) days prov n))
       (filter (\<lambda>(n, coords). cache_hit w prov days ttl db n = None) districts)"

definition hits ::
  "'c world \<Rightarrow> string \<Rightarrow> int \<Rightarrow> int \<Rightarrow> database \<Rightarrow> (string \<times> 'c) list \<Rightarrow> (string \<times> 'c) list" where
  "hits w prov days ttl db districts =
     filter (\<lambda>(n, coords). cache_hit w prov days ttl db n \<noteq> None) districts"

definition fetched :: "'c world \<Rightarrow> int \<Rightarrow> 'c district_info \<Rightarrow> json option" where
  "fetched w days info =
     (case fetch_single_district w days info of
        (district_name, data_opt, key, error) \<Rightarrow>
          (case data_opt of
             None \<Rightarrow> None
           | Some d \<Rightarrow> if truthy d then Some d else None))"

subsection \<open>Example data\<close>

definition alert_of :: "string \<Rightarrow> string \<Rightarrow> int \<Rightarrow> alert_row" where
  "alert_of prov d days =
     \<lparr>province = prov, district = d, forecast_days = days, alert_text = ''Heavy rain'',
      alert_created_at = 0, alert_expires_at = 3600\<rparr>"

text \<open>Five alert rows for PUNJAB at horizon 3, one for another horizon, one for SINDH.\<close>

definition punjab_alerts :: "alert_row list" where
  "punjab_alerts =
     [alert_of ''PUNJAB'' ''LAHORE'' 3, alert_of ''PUNJAB'' ''MULTAN'' 3,
      alert_of ''PUNJAB'' ''ATTOCK'' 3, alert_of ''PUNJAB'' ''JHANG'' 3,
      alert_of ''PUNJAB'' ''KASUR'' 3, alert_of ''PUNJAB'' ''LAHORE'' 1,
      alert_of ''SINDH'' ''KARACHI'' 3]"

definition lahore_weather :: cache_row where
  "lahore_weather =
     \<lparr>cache_key = ''weather_3_PUNJAB_LAHORE'', data = ''{\"current\": {\"temperature\": 20}}'',
      created_at = 0, expires_at = 300\<rparr>"

definition punjab_db :: database where
  "punjab_db = \<lparr>weather_cache = [lahore_weather], alerts = punjab_alerts\<rparr>"

text \<open>
  The payload of the specification's scenario, \<^verbatim>\<open>{"current": {"temperature": 20}}\<close>,
  and \<^verbatim>\<open>json.dumps\<close> and \<^verbatim>\<open>json.loads\<close> on the texts of the examples; every
  other text, as \<^verbatim>\<open>{not json\<close>, does not decode.
\<close>

definition lahore_payload :: json where
  "lahore_payload = JDict [(''current'', JDict [(''temperature'', JNum 20)])]"

definition example_dumps :: dumps where
  "example_dumps v =
     (if v = lahore_payload then Some ''{\"current\": {\"temperature\": 20}}'' else None)"

definition example_loads :: loads where
  "example_loads s =
     (if s = ''{\"current\": {\"temperature\": 20}}'' then Some lahore_payload else None)"

definition corrupt_row :: cache_row where
  "corrupt_row =
     \<lparr>cache_key = ''weather_3_PUNJAB_MULTAN'', data = ''{not json'',
      created_at = 0, expires_at = 300\<rparr>"

definition corrupt_db :: database where
  "corrupt_db = \<lparr>weather_cache = [lahore_weather, corrupt_row], alerts = []\<rparr>"

text \<open>
  A thousand keys: 999 districts that were never cached, and LAHORE.
\<close>

definition many_keys :: "string list" where
  "many_keys =
     map (\<lambda>i. ''weather_3_PUNJAB_DISTRICT'' @ str_nat i) [0..<999] @ [''weather_3_PUNJAB_LAHORE'']"

definition at :: "timestamp \<Rightarrow> clock" where
  "at t = \<lparr>current_timestamp = t, datetime_now = t\<rparr>"

text \<open>
  A world for the examples: LAHORE answers with the scenario's payload, every other
  place times out; futures finish in reverse order of submission; both clocks read 10.
\<close>

definition lahore_coords :: "int \<times> int" where
  "lahore_coords = (31520400, 74358700)"

definition multan_coords :: "int \<times> int" where
  "multan_coords = (30157500, 71524900)"

definition example_world :: "(int \<times> int) world" where
  "example_world =
     \<lparr>json_loads = example_loads, json_dumps = example_dumps, CACHE_TIME = 300,
      sanitize_filename = (\<lambda>s. s),
      session_get = (\<lambda>coords days.
         if coords = lahore_coords then Response 200 (Inr lahore_payload)
         else Transport_error ''Read timed out''),
      as_completed = rev,
      now = at 10\<rparr>"

text \<open>
  The scenario of the specification: LAHORE cached and fresh, MULTAN cached and
  expired, KASUR never cached; the clocks of \<open>scenario_world\<close> read 1000, MULTAN
  and LAHORE answer, KASUR times out.
\<close>

definition kasur_coords :: "int \<times> int" where
  "kasur_coords = (31118700, 74446700)"

definition lahore_fresh :: cache_row where
  "lahore_fresh =
     \<lparr>cache_key = ''weather_3_PUNJAB_LAHORE'', data = ''{\"current\": {\"temperature\": 20}}'',
      created_at = 900, expires_at = 1200\<rparr>"

definition multan_stale :: cache_row where
  "multan_stale =
     \<lparr>cache_key = ''weather_3_PUNJAB_MULTAN'', data = ''{\"current\": {\"temperature\": 20}}'',
      created_at = 0, expires_at = 300\<rparr>"

definition scenario_db :: database where
  "scenario_db = \<lparr>weather_cache = [lahore_fresh, multan_stale], alerts = punjab_alerts\<rparr>"

definition scenario_districts :: "(string \<times> int \<times> int) list" where
  "scenario_districts =
     [(''LAHORE'', lahore_coords), (''MULTAN'', multan_coords), (''KASUR'', kasur_coords)]"

definition scenario_world :: "(int \<times> int) world" where
  "scenario_world =
     example_world\<lparr>session_get := (\<lambda>coords days.
         if coords = kasur_coords then Transport_error ''Read timed out''
         else Response 200 (Inr lahore_payload)),
       now := at 1000\<rparr>"

text \<open>
  Two servers whose local time is not UTC, at the moment the store's clock reads what
  is given first: one five hours ahead of UTC (Asia/Karachi), one eight hours behind
  (America/Los_Angeles).
\<close>

definition karachi_clock :: clock where
  "karachi_clock = \<lparr>current_timestamp = 1000, datetime_now = 1000 + 5 * 3600\<rparr>"

definition pacific_clock :: clock where
  "pacific_clock = \<lparr>current_timestamp = 30000, datetime_now = 30000 - 8 * 3600\<rparr>"

definition empty_db :: database where
  "empty_db = \<lparr>weather_cache = [], alerts = []\<rparr>"

definition karachi_world :: "(int \<times> int) world" where
  "karachi_world = scenario_world\<lparr>now := karachi_clock\<rparr>"

text \<open>The same world with the upstream API down: every request ends in HTTP 503.\<close>

definition down_world :: "(int \<times> int) world" where
  "down_world = scenario_world\<lparr>session_get := (\<lambda>coords days. Response 503 (Inl ''''))\<rparr>"

text \<open>A task id as \<^verbatim>\<open>generate_alerts\<close> builds it.\<close>

definition example_task :: string where
  "example_task = ''alerts_PUNJAB_3_1700000000.0''"

text \<open>Steps after the fetch, for the examples: purge the districts fetched, report.\<close>

definition example_alert_steps :: "(string \<times> json) list \<Rightarrow> database \<Rightarrow> string outcome \<times> database" where
  "example_alert_steps weather_data db =
     (Returned ''Heavy rain expected'', snd (purge_cache_db ''PUNJAB'' (map fst weather_data) 3 db))"

section \<open>Properties\<close>

subsection \<open>Purge and the alerts table\<close>

lemma filter_split_count:
  "length (filter P xs) + length (filter (\<lambda>x. Q x \<and> \<not> P x) xs) =
   length (filter (\<lambda>x. P x \<or> Q x) xs)"
  by (induction xs) auto

lemma purge_district_step:
  "purge_district p h d (c, db) =
     (c + rowcount (\<lambda>r. province r = p \<and> district r = d \<and> forecast_days r = h) (alerts db),
      db\<lparr>alerts := sql_delete (\<lambda>r. province r = p \<and> district r = d \<and> forecast_days r = h) (alerts db),
         weather_cache :=
           sql_delete (\<lambda>r. cache_key r = ''forecast_'' @ p @ ''_'' @ d @ ''_'' @ str_int h \<or>
                               cache_key r = ''alerts_'' @ p @ ''_'' @ str_int h @ ''_'' @ d)
             (weather_cache db)\<rparr>)"
  by (simp add: purge_district_def Let_def)

lemma purge_loop_alerts:
  "alerts (snd (fold (purge_district p h) ds (c, db))) =
     filter (\<lambda>r. \<not> (province r = p \<and> forecast_days r = h \<and> district r \<in> set ds)) (alerts db)"
proof (induction ds arbitrary: c db)
  case Nil
  then show ?case by simp
next
  case (Cons d ds)
  show ?case
    by (simp add: purge_district_step Cons.IH sql_delete_def) (rule filter_cong, auto)
qed

lemma purge_loop_count:
  "fst (fold (purge_district p h) ds (c, db)) =
     c + length (filter (\<lambda>r. province r = p \<and> forecast_days r = h \<and> district r \<in> set ds) (alerts db))"
proof (induction ds arbitrary: c db)
  case Nil
  then show ?case by simp
next
  case (Cons d ds)
  let ?P = "\<lambda>r. province r = p \<and> district r = d \<and> forecast_days r = h"
  let ?Q = "\<lambda>r. province r = p \<and> forecast_days r = h \<and> district r \<in> set ds"
  have "length (filter ?P (alerts db)) + length (filter ?Q (filter (\<lambda>r. \<not> ?P r) (alerts db)))
        = length (filter (\<lambda>r. ?P r \<or> ?Q r) (alerts db))"
    using filter_split_count [of ?P "alerts db" ?Q] by (simp add: conj_commute)
  moreover have "filter (\<lambda>r. ?P r \<or> ?Q r) (alerts db)
        = filter (\<lambda>r. province r = p \<and> forecast_days r = h \<and> district r \<in> set (d # ds)) (alerts db)"
    by (rule filter_cong) auto
  ultimately show ?case
    by (simp add: purge_district_step Cons.IH sql_delete_def rowcount_def)
qed

lemma purged_fun:
  "purged p ds h =
     (\<lambda>r. province r = p \<and> forecast_days r = h \<and> (ds = [] \<or> district r \<in> set ds))"
  by (simp add: fun_eq_iff purged_def)

text \<open>
  C7. For every province, district list, horizon and state of the store, the alerts
  table after \<^verbatim>\<open>purge_cache_db\<close> is the table before without the rows the purge is
  to delete (all rows of the province and horizon for an empty list, the row of each
  listed district otherwise), every other row staying as it was and where it was; and
  the number returned is the number of rows deleted.
\<close>

theorem purge_cache_db_alerts:
  "alerts (snd (purge_cache_db p ds h db)) = filter (\<lambda>r. \<not> purged p ds h r) (alerts db) \<and>
   fst (purge_cache_db p ds h db) = length (filter (purged p ds h) (alerts db))"
proof (cases "ds = []")
  case True
  then show ?thesis
    by (simp add: purge_cache_db_def Let_def sql_delete_def rowcount_def purged_fun)
next
  case False
  then show ?thesis
    by (simp add: purge_cache_db_def purge_loop_alerts purge_loop_count purged_fun)
qed

text \<open>
  The scenario of the specification: five rows for PUNJAB at horizon 3 are removed and
  counted, the rows of the other horizon and the other province stay; and a purge of
  the single district LAHORE removes one row.
\<close>

theorem purge_cache_db_alerts_witness:
  "fst (purge_cache_db ''PUNJAB'' [] 3 punjab_db) = 5 \<and>
   alerts (snd (purge_cache_db ''PUNJAB'' [] 3 punjab_db)) =
     [alert_of ''PUNJAB'' ''LAHORE'' 1, alert_of ''SINDH'' ''KARACHI'' 3] \<and>
   fst (purge_cache_db ''PUNJAB'' [''LAHORE''] 3 punjab_db) = 1 \<and>
   alerts (snd (purge_cache_db ''PUNJAB'' [''LAHORE''] 3 punjab_db)) = tl punjab_alerts"
  by (simp add: purge_cache_db_alerts purged_def punjab_db_def punjab_alerts_def alert_of_def)

subsection \<open>Purge and the weather rows of the bulk fetcher\<close>

lemma like_weather_forecast: "\<not> like (''forecast_'' @ p) (''weather_'' @ k)"
  by (simp add: ascii_lower_def)

lemma like_weather_alerts: "\<not> like (''alerts_'' @ p) (''weather_'' @ k)"
  by (simp add: ascii_lower_def)

lemma purge_loop_weather:
  "weather_cache (snd (fold (purge_district p h) ds (c, db))) =
     filter (\<lambda>r. \<forall>d \<in> set ds. cache_key r \<noteq> ''forecast_'' @ p @ ''_'' @ d @ ''_'' @ str_int h \<and>
                        cache_key r \<noteq> ''alerts_'' @ p @ ''_'' @ str_int h @ ''_'' @ d)
       (weather_cache db)"
proof (induction ds arbitrary: c db)
  case Nil
  then show ?case by simp
next
  case (Cons d ds)
  show ?case
    by (simp add: purge_district_step Cons.IH sql_delete_def)
qed

text \<open>
  C10. A row of \<^verbatim>\<open>weather_cache\<close> whose key has the form
  \<^verbatim>\<open>weather_{h}_{p}_{district}\<close>, the keys \<^verbatim>\<open>get_bulk_weather_data\<close> writes, is
  still in the table after any \<^verbatim>\<open>purge_cache_db\<close>: the patterns and keys of the
  purge begin with \<^verbatim>\<open>forecast_\<close> and \<^verbatim>\<open>alerts_\<close>.
\<close>

theorem purge_keeps_weather_rows:
  assumes "r \<in> set (weather_cache db)"
    and "cache_key r = weather_key sanitize h' p' d"
  shows "r \<in> set (weather_cache (snd (purge_cache_db p ds h db)))"
proof (cases "ds = []")
  case True
  then show ?thesis using assms like_weather_forecast like_weather_alerts
    by (simp add: purge_cache_db_def Let_def sql_delete_def weather_key_def)
next
  case False
  then show ?thesis using assms
    by (simp add: purge_cache_db_def purge_loop_weather weather_key_def)
qed

theorem purge_keeps_weather_rows_witness:
  "lahore_weather \<in> set (weather_cache punjab_db) \<and>
   cache_key lahore_weather = weather_key (\<lambda>s. s) 3 ''PUNJAB'' ''LAHORE'' \<and>
   lahore_weather \<in> set (weather_cache (snd (purge_cache_db ''PUNJAB'' [] 3 punjab_db))) \<and>
   lahore_weather \<in> set (weather_cache (snd (purge_cache_db ''PUNJAB'' [''LAHORE''] 3 punjab_db)))"
proof -
  have m: "lahore_weather \<in> set (weather_cache punjab_db)"
    by (simp add: punjab_db_def)
  have k: "cache_key lahore_weather = weather_key (\<lambda>s. s) 3 ''PUNJAB'' ''LAHORE''"
    by (simp add: lahore_weather_def weather_key_def str_int_def str_nat.simps digit_char_def)
  show ?thesis
    using m k purge_keeps_weather_rows [OF m k] by blast
qed

subsection \<open>Write, then read\<close>

lemma find_insert_or_replace:
  assumes "\<And>r. P r \<Longrightarrow> same r" and "P new"
  shows "find P (insert_or_replace same new rows) = Some new"
  using assms by (induction rows) (auto simp: insert_or_replace_def)

lemma find_none_iff: "find P xs = None \<longleftrightarrow> (\<forall>x \<in> set xs. \<not> P x)"
  by (induction xs) auto

lemma insert_or_replace_distinct:
  "distinct (map cache_key rows) \<Longrightarrow>
   distinct (map cache_key (insert_or_replace (\<lambda>r. cache_key r = cache_key new) new rows))"
  by (auto simp: insert_or_replace_def distinct_map_filter)

text \<open>The primary key of \<^verbatim>\<open>weather_cache\<close> stays a key under a write.\<close>

lemma set_raw_weather_cache_distinct:
  "distinct (map cache_key (weather_cache db)) \<Longrightarrow>
   distinct (map cache_key (weather_cache (set_raw_weather_cache dm ttl clk db k v)))"
  using insert_or_replace_distinct
    [of "weather_cache db" "\<lparr>cache_key = k, data = s, created_at = c, expires_at = e\<rparr>" for s c e]
  by (simp add: set_raw_weather_cache_def split: option.splits)

text \<open>
  When a write is read back. Writing \<open>v\<close> under \<open>k\<close> with
  \<^verbatim>\<open>set_raw_weather_cache\<close> and reading \<open>k\<close> with \<^verbatim>\<open>get_raw_weather_cache\<close>
  returns \<open>v\<close> (with the time of the write), for every key, every store and every
  payload that \<^verbatim>\<open>json.dumps\<close> and \<^verbatim>\<open>json.loads\<close> take to a text and back, if
  the store's clock (UTC) at the read is below the \<^verbatim>\<open>expires_at\<close> written, which
  is the local \<^verbatim>\<open>datetime.now()\<close> at the write plus \<^verbatim>\<open>Config.CACHE_TIME\<close>. And
  a read of a key whose rows all have \<^verbatim>\<open>expires_at\<close> at or before the store's
  clock is a miss.
\<close>

lemma weather_cache_set_get:
  "(dm v = Some s \<and> ld s = Some v \<and>
      current_timestamp clk' < datetime_now clk + ttl \<longrightarrow>
    fst (get_raw_weather_cache ld clk'
           (set_raw_weather_cache dm ttl clk db k v) k) = Some (v, current_timestamp clk)) \<and>
   ((\<forall>r \<in> set (weather_cache db). cache_key r = k \<longrightarrow> expires_at r \<le> current_timestamp clk') \<longrightarrow>
    fst (get_raw_weather_cache ld clk' db k) = None)"
proof (intro conjI impI)
  assume a: "dm v = Some s \<and> ld s = Some v \<and>
      current_timestamp clk' < datetime_now clk + ttl"
  let ?new = "\<lparr>cache_key = k, data = s, created_at = current_timestamp clk,
                expires_at = datetime_now clk + ttl\<rparr>"
  have "select_live clk' k (insert_or_replace (\<lambda>r. cache_key r = k) ?new (weather_cache db)) = Some ?new"
    unfolding select_live_def using a by (intro find_insert_or_replace) auto
  with a show "fst (get_raw_weather_cache ld clk'
           (set_raw_weather_cache dm ttl clk db k v) k) = Some (v, current_timestamp clk)"
    by (simp add: get_raw_weather_cache_def set_raw_weather_cache_def)
next
  assume "\<forall>r \<in> set (weather_cache db). cache_key r = k \<longrightarrow> expires_at r \<le> current_timestamp clk'"
  then have "select_live clk' k (weather_cache db) = None"
    unfolding select_live_def find_none_iff by auto
  then show "fst (get_raw_weather_cache ld clk' db k) = None"
    by (simp add: get_raw_weather_cache_def)
qed

text \<open>
  The scenario of the specification on a server whose local time is UTC:
  \<^verbatim>\<open>weather_3_PUNJAB_LAHORE\<close> with a TTL of 300 seconds is read back at once; a row
  whose \<^verbatim>\<open>expires_at\<close> is 301 seconds in the past is a miss.
\<close>

lemma weather_cache_set_get_example:
  "example_dumps lahore_payload = Some (data lahore_weather) \<and>
   example_loads (data lahore_weather) = Some lahore_payload \<and>
   current_timestamp (at 1000) < datetime_now (at 1000) + 300 \<and>
   fst (get_raw_weather_cache example_loads (at 1000)
          (set_raw_weather_cache example_dumps 300 (at 1000) punjab_db ''weather_3_PUNJAB_LAHORE''
             lahore_payload) ''weather_3_PUNJAB_LAHORE'') = Some (lahore_payload, 1000) \<and>
   weather_cache punjab_db = [lahore_weather] \<and>
   expires_at lahore_weather \<le> current_timestamp (at 601) \<and>
   fst (get_raw_weather_cache example_loads (at 601) punjab_db ''weather_3_PUNJAB_LAHORE'') = None"
proof -
  have d: "example_dumps lahore_payload = Some (data lahore_weather)"
    by (simp add: example_dumps_def lahore_weather_def)
  have l: "example_loads (data lahore_weather) = Some lahore_payload"
    by (simp add: example_loads_def lahore_weather_def)
  have t: "current_timestamp (at 1000) < datetime_now (at 1000) + 300"
    by (simp add: at_def)
  have w: "weather_cache punjab_db = [lahore_weather]"
    by (simp add: punjab_db_def)
  have e: "expires_at lahore_weather \<le> current_timestamp (at 601)"
    by (simp add: lahore_weather_def at_def)
  have c: "current_timestamp (at 1000) = 1000"
    by (simp add: at_def)
  note th1 = weather_cache_set_get [of example_dumps lahore_payload "data lahore_weather" example_loads
      "at 1000" "at 1000" 300 punjab_db "''weather_3_PUNJAB_LAHORE''"]
  note th2 = weather_cache_set_get [of example_dumps lahore_payload "data lahore_weather" example_loads
      "at 601" "at 1000" 300 punjab_db "''weather_3_PUNJAB_LAHORE''"]
  from th1 th2 d l t w e c show ?thesis by simp
qed

text \<open>
  C2. On a server whose local time is eight hours behind UTC, with a TTL of 300
  seconds: \<^verbatim>\<open>set_raw_weather_cache\<close> writes the row with \<^verbatim>\<open>created_at\<close> from
  the store's clock and \<^verbatim>\<open>expires_at\<close> from the local clock, so the row has
  expired for the store when it is written; \<^verbatim>\<open>get_raw_weather_cache\<close> at the
  same moment returns a miss, where the same write and read with the local clock at
  UTC return the payload.
\<close>

theorem immediate_read_misses:
  "weather_cache (set_raw_weather_cache example_dumps 300 pacific_clock empty_db
      ''weather_3_PUNJAB_LAHORE'' lahore_payload) =
     [\<lparr>cache_key = ''weather_3_PUNJAB_LAHORE'', data = ''{\"current\": {\"temperature\": 20}}'',
       created_at = 30000, expires_at = 1500\<rparr>] \<and>
   fst (get_raw_weather_cache example_loads pacific_clock
          (set_raw_weather_cache example_dumps 300 pacific_clock empty_db
             ''weather_3_PUNJAB_LAHORE'' lahore_payload) ''weather_3_PUNJAB_LAHORE'') = None \<and>
   fst (get_raw_weather_cache example_loads (at 30000)
          (set_raw_weather_cache example_dumps 300 (at 30000) empty_db
             ''weather_3_PUNJAB_LAHORE'' lahore_payload) ''weather_3_PUNJAB_LAHORE'') =
     Some (lahore_payload, 30000)"
  by (simp add: set_raw_weather_cache_def get_raw_weather_cache_def select_live_def
      insert_or_replace_def example_dumps_def example_loads_def pacific_clock_def empty_db_def
      at_def)

subsection \<open>Rows whose payload does not decode\<close>

lemma get_raw_weather_cache_corrupt:
  assumes "select_live clk k (weather_cache db) = Some row" and "ld (data row) = None"
  shows "get_raw_weather_cache ld clk db k = (None, db)"
  using assms by (simp add: get_raw_weather_cache_def)

lemma get_weather_cache_corrupt:
  assumes "select_live clk k (weather_cache db) = Some row" and "ld (data row) = None"
  shows "fst (get_weather_cache ld from_records clk db k) = None \<and>
         (\<forall>r \<in> set (weather_cache (snd (get_weather_cache ld from_records clk db k))).
             cache_key r \<noteq> k)"
  using assms by (simp add: get_weather_cache_def sql_delete_def)

text \<open>
  C8. A live row whose payload does not decode, read one key at a time:
  \<^verbatim>\<open>get_raw_weather_cache\<close> returns a miss and leaves the store as it was, the
  row still in it, where \<^verbatim>\<open>get_weather_cache\<close> on the same store deletes the row.
\<close>

theorem get_raw_weather_cache_keeps_corrupt_row:
  "select_live (at 10) ''weather_3_PUNJAB_MULTAN'' (weather_cache corrupt_db) = Some corrupt_row \<and>
   example_loads (data corrupt_row) = None \<and>
   get_raw_weather_cache example_loads (at 10) corrupt_db ''weather_3_PUNJAB_MULTAN'' = (None, corrupt_db) \<and>
   corrupt_row \<in> set (weather_cache corrupt_db) \<and>
   get_weather_cache example_loads (\<lambda>d. Some d) (at 10) corrupt_db ''weather_3_PUNJAB_MULTAN'' =
     (None, corrupt_db\<lparr>weather_cache := [lahore_weather]\<rparr>)"
  by (simp add: get_raw_weather_cache_def get_weather_cache_def select_live_def corrupt_db_def
      corrupt_row_def lahore_weather_def example_loads_def at_def sql_delete_def)

subsection \<open>The batch read\<close>

lemma find_SomeP: "find P xs = Some x \<Longrightarrow> P x"
  by (induction xs) (auto split: if_splits)

lemma find_filter_unique:
  assumes "distinct (map f xs)"
  shows "find (\<lambda>x. f x = k) (filter Q xs) =
     (case find (\<lambda>x. f x = k) xs of None \<Rightarrow> None | Some x \<Rightarrow> if Q x then Some x else None)"
  using assms
proof (induction xs)
  case Nil
  then show ?case by simp
next
  case (Cons x xs)
  show ?case
  proof (cases "f x = k")
    case True
    with Cons.prems have "\<forall>y \<in> set xs. f y \<noteq> k" by (auto simp: image_iff)
    then have "find (\<lambda>x. f x = k) (filter Q xs) = None"
      by (simp add: find_none_iff)
    with True show ?thesis by simp
  next
    case False
    with Cons show ?thesis by simp
  qed
qed

lemma batch_row_other:
  "cache_key r \<noteq> k \<Longrightarrow> map_of (batch_row ld r acc) k = map_of acc k"
  by (simp add: batch_row_def update_conv' split: option.splits)

lemma batch_row_same:
  "map_of (batch_row ld r acc) (cache_key r) =
     (case ld (data r) of None \<Rightarrow> map_of acc (cache_key r) | Some d \<Rightarrow> Some (d, created_at r))"
  by (simp add: batch_row_def update_conv' split: option.splits)

lemma batch_fold:
  assumes "distinct (map cache_key rs)"
  shows "map_of (fold (batch_row ld) rs acc) k =
     (case find (\<lambda>r. cache_key r = k) rs of
        None \<Rightarrow> map_of acc k
      | Some r \<Rightarrow> (case ld (data r) of None \<Rightarrow> map_of acc k | Some d \<Rightarrow> Some (d, created_at r)))"
  using assms
proof (induction rs arbitrary: acc)
  case Nil
  then show ?case by simp
next
  case (Cons r rs)
  show ?case
  proof (cases "cache_key r = k")
    case True
    with Cons.prems have "\<forall>y \<in> set rs. cache_key y \<noteq> k" by (auto simp: image_iff)
    then have "find (\<lambda>r. cache_key r = k) rs = None"
      by (simp add: find_none_iff)
    with True Cons show ?thesis
      using batch_row_same [of ld r acc] by (auto split: option.splits)
  next
    case False
    then have "map_of (batch_row ld r acc) k = map_of acc k"
      by (rule batch_row_other)
    with False Cons show ?thesis by (simp cong: option.case_cong)
  qed
qed

lemma batch_fold_distinct:
  "distinct (map fst acc) \<Longrightarrow> distinct (map fst (fold (batch_row ld) rs acc))"
  by (induction rs arbitrary: acc) (auto simp: batch_row_def distinct_update split: option.splits)

text \<open>
  C4, as amended. For every list of keys that is no longer than the engine's limit on
  bound parameters, and every store in which \<^verbatim>\<open>cache_key\<close> is a key of the
  table, the dict \<^verbatim>\<open>get_raw_weather_cache_batch\<close> returns holds exactly the
  requested keys that have a row with \<^verbatim>\<open>expires_at\<close> in the future and a payload
  that decodes, each with the payload and \<^verbatim>\<open>created_at\<close> of its row; every
  other key is absent. For a longer list the dict is empty. No list of keys makes the
  function raise: it returns in every case.
\<close>

theorem get_raw_weather_cache_batch_exact:
  assumes "distinct (map cache_key (weather_cache db))"
  shows "(length cache_keys \<le> mx \<longrightarrow>
            map_of (get_raw_weather_cache_batch mx ld clk db cache_keys) =
            batch_entry ld clk db cache_keys) \<and>
         (mx < length cache_keys \<longrightarrow> get_raw_weather_cache_batch mx ld clk db cache_keys = []) \<and>
         distinct (map fst (get_raw_weather_cache_batch mx ld clk db cache_keys))"
proof (cases "cache_keys = []")
  case True
  then show ?thesis
    by (simp add: get_raw_weather_cache_batch_def batch_entry_def fun_eq_iff)
next
  case False
  let ?Q = "\<lambda>r. cache_key r \<in> set cache_keys \<and> current_timestamp clk < expires_at r"
  have d: "distinct (map cache_key (filter ?Q (weather_cache db)))"
    using assms by (simp add: distinct_map_filter)
  have "map_of (fold (batch_row ld) (filter ?Q (weather_cache db)) []) k = batch_entry ld clk db cache_keys k"
    for k
  proof (cases "find (\<lambda>r. cache_key r = k) (weather_cache db)")
    case None
    then show ?thesis
      by (simp add: batch_fold [OF d] find_filter_unique [OF assms] batch_entry_def)
  next
    case (Some r)
    then have "cache_key r = k" by (rule find_SomeP)
    with Some show ?thesis
      by (simp add: batch_fold [OF d] find_filter_unique [OF assms] batch_entry_def
          split: option.splits)
  qed
  with False show ?thesis
    by (simp add: get_raw_weather_cache_batch_def fun_eq_iff batch_fold_distinct)
qed

theorem get_raw_weather_cache_batch_exact_witness:
  "distinct (map cache_key (weather_cache corrupt_db)) \<and>
   length [''weather_3_PUNJAB_LAHORE'', ''weather_3_PUNJAB_MULTAN'', ''weather_3_PUNJAB_KASUR'']
     \<le> (999 :: nat) \<and>
   map_of (get_raw_weather_cache_batch 999 example_loads (at 10) corrupt_db
      [''weather_3_PUNJAB_LAHORE'', ''weather_3_PUNJAB_MULTAN'', ''weather_3_PUNJAB_KASUR''])
      ''weather_3_PUNJAB_LAHORE'' = Some (lahore_payload, 0) \<and>
   map_of (get_raw_weather_cache_batch 999 example_loads (at 10) corrupt_db
      [''weather_3_PUNJAB_LAHORE'', ''weather_3_PUNJAB_MULTAN'', ''weather_3_PUNJAB_KASUR''])
      ''weather_3_PUNJAB_MULTAN'' = None \<and>
   map_of (get_raw_weather_cache_batch 999 example_loads (at 10) corrupt_db
      [''weather_3_PUNJAB_LAHORE'', ''weather_3_PUNJAB_MULTAN'', ''weather_3_PUNJAB_KASUR''])
      ''weather_3_PUNJAB_KASUR'' = None \<and>
   map_of (get_raw_weather_cache_batch 999 example_loads (at 300) corrupt_db
      [''weather_3_PUNJAB_LAHORE'', ''weather_3_PUNJAB_MULTAN'', ''weather_3_PUNJAB_KASUR''])
      ''weather_3_PUNJAB_LAHORE'' = None \<and>
   999 < length many_keys \<and>
   get_raw_weather_cache_batch 999 example_loads (at 10) corrupt_db many_keys = []"
proof -
  have d: "distinct (map cache_key (weather_cache corrupt_db))"
    by (simp add: corrupt_db_def corrupt_row_def lahore_weather_def)
  have l: "length [''weather_3_PUNJAB_LAHORE'', ''weather_3_PUNJAB_MULTAN'', ''weather_3_PUNJAB_KASUR'']
     \<le> (999 :: nat)"
    by simp
  have m: "999 < length many_keys"
    by (simp add: many_keys_def)
  note th = get_raw_weather_cache_batch_exact [OF d, of _ 999 example_loads]
  show ?thesis
    using d l m th [THEN conjunct1, rule_format, OF l] th [THEN conjunct2, THEN conjunct1, rule_format, OF m]
    by (simp add: batch_entry_def corrupt_db_def corrupt_row_def lahore_weather_def
        example_loads_def at_def)
qed

text \<open>
  C4 as stated fails for a list of 1000 keys on an engine that allows 999 bound
  parameters: LAHORE is among the keys and has a live row whose payload decodes, and
  the dict returned is empty.
\<close>

theorem get_raw_weather_cache_batch_limit_counterexample:
  "length many_keys = 1000 \<and>
   ''weather_3_PUNJAB_LAHORE'' \<in> set many_keys \<and>
   batch_entry example_loads (at 10) corrupt_db many_keys ''weather_3_PUNJAB_LAHORE'' =
     Some (lahore_payload, 0) \<and>
   get_raw_weather_cache_batch 999 example_loads (at 10) corrupt_db many_keys = [] \<and>
   map_of (get_raw_weather_cache_batch 999 example_loads (at 10) corrupt_db many_keys) \<noteq>
     batch_entry example_loads (at 10) corrupt_db many_keys"
proof -
  have l: "length many_keys = 1000"
    by (simp add: many_keys_def)
  have k: "''weather_3_PUNJAB_LAHORE'' \<in> set many_keys"
    by (simp add: many_keys_def)
  have b: "batch_entry example_loads (at 10) corrupt_db many_keys ''weather_3_PUNJAB_LAHORE'' =
     Some (lahore_payload, 0)"
    using k by (simp add: batch_entry_def corrupt_db_def corrupt_row_def lahore_weather_def
        example_loads_def at_def)
  have g: "get_raw_weather_cache_batch 999 example_loads (at 10) corrupt_db many_keys = []"
    using l by (auto simp: get_raw_weather_cache_batch_def)
  have "map_of (get_raw_weather_cache_batch 999 example_loads (at 10) corrupt_db many_keys)
          ''weather_3_PUNJAB_LAHORE'' = None"
    by (simp add: g)
  with b have "map_of (get_raw_weather_cache_batch 999 example_loads (at 10) corrupt_db many_keys) \<noteq>
     batch_entry example_loads (at 10) corrupt_db many_keys"
    by (metis option.distinct(1))
  with l k b g show ?thesis by blast
qed

subsection \<open>The two loops of the bulk fetch\<close>

lemma classify_step:
  "classify_district w p h t db (n, co) (u, c) =
     (case cache_hit w p h t db n of
        Some d \<Rightarrow> (u, AList.update n d c)
      | None \<Rightarrow> (u @ [(n, co, weather_key (sanitize_filename w) h p n)], c))"
  by (simp add: classify_district_def)

lemma classify_fold_fst:
  "fst (fold (classify_district w p h t db) ds (u, c)) = u @ misses w p h t db ds"
proof (induction ds arbitrary: u c)
  case Nil
  then show ?case by (simp add: misses_def)
next
  case (Cons a ds)
  obtain n co where a: "a = (n, co)" by (cases a)
  show ?case
    by (cases "cache_hit w p h t db n") (simp_all add: a classify_step Cons.IH misses_def)
qed

lemma classify_fold_snd:
  "map_of (snd (fold (classify_district w p h t db) ds (u, c))) x =
     (if x \<in> fst ` set ds \<and> cache_hit w p h t db x \<noteq> None then cache_hit w p h t db x
      else map_of c x)"
proof (induction ds arbitrary: u c)
  case Nil
  then show ?case by simp
next
  case (Cons a ds)
  obtain n co where a: "a = (n, co)" by (cases a)
  show ?case
    by (cases "cache_hit w p h t db n") (auto simp: a classify_step Cons.IH update_conv')
qed

lemma update_new_keys:
  "n \<notin> fst ` set c \<Longrightarrow> map fst (AList.update n d c) = map fst c @ [n]"
  by (simp add: update_keys)

lemma classify_fold_keys:
  assumes "distinct (map fst ds)" and "fst ` set ds \<inter> fst ` set c = {}"
  shows "map fst (snd (fold (classify_district w p h t db) ds (u, c))) =
         map fst c @ map fst (hits w p h t db ds)"
  using assms
proof (induction ds arbitrary: u c)
  case Nil
  then show ?case by (simp add: hits_def)
next
  case (Cons a ds)
  obtain n co where a: "a = (n, co)" by (cases a)
  show ?case
  proof (cases "cache_hit w p h t db n")
    case None
    with Cons show ?thesis by (simp add: a classify_step hits_def)
  next
    case (Some d)
    from Cons.prems a have n: "n \<notin> fst ` set c" by auto
    have "fst ` set ds \<inter> fst ` set (AList.update n d c) = {}"
      using Cons.prems a by (auto simp: dom_update)
    moreover have "distinct (map fst ds)" using Cons.prems by simp
    ultimately show ?thesis
      using Cons.IH [of "AList.update n d c" u] Some
      by (simp add: a classify_step hits_def update_new_keys [OF n])
  qed
qed

text \<open>The loop over the finished futures.\<close>

lemma fetch_single_district_shape:
  "\<exists>data_opt err. fetch_single_district w days (n, co, key) = (n, data_opt, key, err)"
  by (simp add: fetch_single_district_def split: http_outcome.splits sum.splits)

lemma handle_step:
  "handle_result w (fetch_single_district w days (n, co, key)) (c, db) =
     (case fetched w days (n, co, key) of
        None \<Rightarrow> (c, db)
      | Some d \<Rightarrow>
          (AList.update n d c, set_raw_weather_cache (json_dumps w) (CACHE_TIME w) (now w) db key d))"
proof -
  obtain data_opt err where "fetch_single_district w days (n, co, key) = (n, data_opt, key, err)"
    using fetch_single_district_shape [of w days n co key] by blast
  then show ?thesis
    by (simp add: handle_result_def fetched_def split: option.splits)
qed

lemma handle_fold_other:
  "x \<notin> fst ` set infos \<Longrightarrow>
   map_of (fst (fold (handle_result w) (map (fetch_single_district w days) infos) (c, db))) x =
   map_of c x"
proof (induction infos arbitrary: c db)
  case Nil
  then show ?case by simp
next
  case (Cons i infos)
  obtain n co key where i: "i = (n, co, key)" by (cases i)
  from Cons.prems i have x: "x \<noteq> n" "x \<notin> fst ` set infos" by auto
  show ?case
    by (cases "fetched w days (n, co, key)")
       (simp_all add: i handle_step Cons.IH [OF x(2)] update_conv' x(1))
qed

lemma handle_fold_entry:
  assumes "distinct (map fst infos)" and "(n, co, key) \<in> set infos"
  shows "map_of (fst (fold (handle_result w) (map (fetch_single_district w days) infos) (c, db))) n =
         (case fetched w days (n, co, key) of None \<Rightarrow> map_of c n | Some d \<Rightarrow> Some d)"
  using assms
proof (induction infos arbitrary: c db)
  case Nil
  then show ?case by simp
next
  case (Cons i infos)
  obtain n' co' key' where i: "i = (n', co', key')" by (cases i)
  show ?case
  proof (cases "(n, co, key) = i")
    case True
    with Cons.prems have "n \<notin> fst ` set infos" by force
    then show ?thesis
      using True [symmetric]
      by (cases "fetched w days (n, co, key)")
         (simp_all add: handle_step handle_fold_other update_conv')
  next
    case False
    with Cons.prems have m: "(n, co, key) \<in> set infos" and d: "distinct (map fst infos)" by auto
    from Cons.prems m i have ne: "n \<noteq> n'" by (auto simp: image_iff)
    show ?thesis
      by (cases "fetched w days (n', co', key')")
         (simp_all add: i handle_step Cons.IH [OF d m] update_conv' ne cong: option.case_cong)
  qed
qed

lemma handle_fold_keys:
  assumes "distinct (map fst infos)" and "fst ` set infos \<inter> fst ` set c = {}"
  shows "map fst (fst (fold (handle_result w) (map (fetch_single_district w days) infos) (c, db))) =
         map fst c @ map fst (filter (\<lambda>i. fetched w days i \<noteq> None) infos)"
  using assms
proof (induction infos arbitrary: c db)
  case Nil
  then show ?case by simp
next
  case (Cons i infos)
  obtain n co key where i: "i = (n, co, key)" by (cases i)
  show ?case
  proof (cases "fetched w days (n, co, key)")
    case None
    with Cons show ?thesis by (simp add: i handle_step)
  next
    case (Some d)
    from Cons.prems i have n: "n \<notin> fst ` set c" by auto
    have "fst ` set infos \<inter> fst ` set (AList.update n d c) = {}"
      using Cons.prems i by (auto simp: dom_update)
    moreover have "distinct (map fst infos)" using Cons.prems by simp
    ultimately show ?thesis
      using Cons.IH [of "AList.update n d c"] Some
      by (simp add: i handle_step update_new_keys [OF n])
  qed
qed

lemma handle_fold_store:
  "\<forall>i \<in> set infos. fetched w days i = None \<Longrightarrow>
   fold (handle_result w) (map (fetch_single_district w days) infos) (c, db) = (c, db)"
proof (induction infos)
  case Nil
  then show ?case by simp
next
  case (Cons i infos)
  obtain n co key where i: "i = (n, co, key)" by (cases i)
  with Cons show ?case by (simp add: handle_step)
qed


text \<open>Putting the two loops together.\<close>

lemma bulk_unfold:
  "get_bulk_weather_data w p ds h ct db =
     (if misses w p h (effective_ttl w ct) db ds = [] then
        \<lparr>returned = snd (fold (classify_district w p h (effective_ttl w ct) db) ds ([], [])),
         store = db, fetch_calls = []\<rparr>
      else
        \<lparr>returned = fst (fold (handle_result w)
             (map (fetch_single_district w h) (as_completed w (misses w p h (effective_ttl w ct) db ds)))
             (snd (fold (classify_district w p h (effective_ttl w ct) db) ds ([], [])), db)),
         store = snd (fold (handle_result w)
             (map (fetch_single_district w h) (as_completed w (misses w p h (effective_ttl w ct) db ds)))
             (snd (fold (classify_district w p h (effective_ttl w ct) db) ds ([], [])), db)),
         fetch_calls = misses w p h (effective_ttl w ct) db ds\<rparr>)"
proof -
  obtain u c where f: "fold (classify_district w p h (effective_ttl w ct) db) ds ([], []) = (u, c)"
    by (cases "fold (classify_district w p h (effective_ttl w ct) db) ds ([], [])")
  have u: "u = misses w p h (effective_ttl w ct) db ds"
    using classify_fold_fst [of w p h "effective_ttl w ct" db ds "[]" "[]"] f by simp
  show ?thesis
    unfolding get_bulk_weather_data_def effective_ttl_def [symmetric] Let_def f
    by (simp add: u split: prod.splits)
qed

lemma bulk_fetch_calls:
  "fetch_calls (get_bulk_weather_data w p ds h ct db) = misses w p h (effective_ttl w ct) db ds"
  by (simp add: bulk_unfold)

lemma misses_names:
  "fst ` set (misses w p h t db ds) = {n \<in> fst ` set ds. cache_hit w p h t db n = None}"
  by (force simp: misses_def image_iff)

lemma misses_map_fst:
  "map fst (misses w p h t db ds) = map fst (filter (\<lambda>(n, co). cache_hit w p h t db n = None) ds)"
  by (simp add: misses_def case_prod_beta comp_def)

lemma hits_names:
  "fst ` set (hits w p h t db ds) = {n \<in> fst ` set ds. cache_hit w p h t db n \<noteq> None}"
  by (force simp: hits_def image_iff)

lemma misses_distinct:
  "distinct (map fst ds) \<Longrightarrow> distinct (map fst (misses w p h t db ds))"
  by (simp add: misses_map_fst distinct_map_filter)

lemma classified_keys:
  "distinct (map fst ds) \<Longrightarrow>
   map fst (snd (fold (classify_district w p h t db) ds ([], []))) = map fst (hits w p h t db ds)"
  using classify_fold_keys [of ds "[]" w p h t db "[]"] by simp

lemma bulk_entry:
  assumes d: "distinct (map fst ds)"
    and perm: "\<And>xs. mset (as_completed w xs) = mset xs"
    and m: "(n, co) \<in> set ds"
  shows "map_of (returned (get_bulk_weather_data w p ds h ct db)) n =
     (case cache_hit w p h (effective_ttl w ct) db n of
        Some v \<Rightarrow> Some v
      | None \<Rightarrow> fetched w h (n, co, weather_key (sanitize_filename w) h p n))"
proof -
  let ?t = "effective_ttl w ct"
  let ?U = "misses w p h ?t db ds"
  let ?C = "snd (fold (classify_district w p h ?t db) ds ([], []))"
  have C: "map_of ?C n = cache_hit w p h ?t db n"
    using m classify_fold_snd [of w p h ?t db ds "[]" "[]" n] by (auto simp: image_iff)
  have sU: "set (as_completed w ?U) = set ?U"
    using perm [of ?U] by (rule mset_eq_setD)
  have pU: "mset (map fst (as_completed w ?U)) = mset (map fst ?U)"
    unfolding mset_map by (simp only: perm)
  have dU: "distinct (map fst (as_completed w ?U))"
    using misses_distinct [OF d, of w p h ?t db] mset_eq_imp_distinct_iff [OF pU] by simp
  show ?thesis
  proof (cases "cache_hit w p h ?t db n")
    case (Some v)
    then have "n \<notin> fst ` set (as_completed w ?U)"
      by (simp add: sU misses_names)
    then show ?thesis
      using Some C by (simp add: bulk_unfold handle_fold_other)
  next
    case None
    with m have "(n, co, weather_key (sanitize_filename w) h p n) \<in> set ?U"
      unfolding misses_def by (auto intro!: image_eqI [where x = "(n, co)"])
    then have "(n, co, weather_key (sanitize_filename w) h p n) \<in> set (as_completed w ?U)"
      by (simp add: sU)
    from handle_fold_entry [OF dU this, of w h ?C db] None C
    have "map_of (fst (fold (handle_result w) (map (fetch_single_district w h) (as_completed w ?U))
             (?C, db))) n = fetched w h (n, co, weather_key (sanitize_filename w) h p n)"
      by (simp split: option.splits)
    moreover have "?U \<noteq> []"
      using None m by (force simp: misses_def filter_empty_conv)
    ultimately show ?thesis
      using None by (simp add: bulk_unfold)
  qed
qed

lemma bulk_entry_other:
  assumes "n \<notin> fst ` set ds" and perm: "\<And>xs. mset (as_completed w xs) = mset xs"
  shows "map_of (returned (get_bulk_weather_data w p ds h ct db)) n = None"
proof -
  let ?t = "effective_ttl w ct"
  let ?U = "misses w p h ?t db ds"
  let ?C = "snd (fold (classify_district w p h ?t db) ds ([], []))"
  have C: "map_of ?C n = None"
    using assms(1) classify_fold_snd [of w p h ?t db ds "[]" "[]" n] by simp
  have sU: "set (as_completed w ?U) = set ?U"
    using perm [of ?U] by (rule mset_eq_setD)
  have "n \<notin> fst ` set (as_completed w ?U)"
    using assms(1) by (simp add: sU misses_names)
  then show ?thesis
    using C by (simp add: bulk_unfold handle_fold_other)
qed

lemma bulk_keys:
  assumes d: "distinct (map fst ds)"
    and perm: "\<And>xs. mset (as_completed w xs) = mset xs"
  shows "mset (map fst (returned (get_bulk_weather_data w p ds h ct db))) =
         mset (map fst (hits w p h (effective_ttl w ct) db ds)) +
         mset (map fst (filter (\<lambda>i. fetched w h i \<noteq> None)
                 (fetch_calls (get_bulk_weather_data w p ds h ct db))))"
proof -
  let ?t = "effective_ttl w ct"
  let ?U = "misses w p h ?t db ds"
  let ?C = "snd (fold (classify_district w p h ?t db) ds ([], []))"
  have K: "map fst ?C = map fst (hits w p h ?t db ds)"
    using classified_keys [OF d] .
  show ?thesis
  proof (cases "?U = []")
    case True
    then show ?thesis by (simp add: bulk_unfold K)
  next
    case False
    have sU: "set (as_completed w ?U) = set ?U"
      using perm [of ?U] by (rule mset_eq_setD)
    have pU: "mset (map fst (as_completed w ?U)) = mset (map fst ?U)"
      unfolding mset_map by (simp only: perm)
    have dU: "distinct (map fst (as_completed w ?U))"
      using misses_distinct [OF d, of w p h ?t db] mset_eq_imp_distinct_iff [OF pU] by simp
    have "fst ` set ?C = fst ` set (hits w p h ?t db ds)"
      using arg_cong [OF K, of set] by (simp only: set_map)
    then have dis: "fst ` set (as_completed w ?U) \<inter> fst ` set ?C = {}"
      by (auto simp: sU misses_names hits_names)
    have "mset (map fst (filter (\<lambda>i. fetched w h i \<noteq> None) (as_completed w ?U))) =
          mset (map fst (filter (\<lambda>i. fetched w h i \<noteq> None) ?U))"
      unfolding mset_map mset_filter by (simp only: perm)
    with handle_fold_keys [OF dU dis, of w h db] K False show ?thesis
      by (simp add: bulk_unfold)
  qed
qed

lemma disjoint_mono_right: "B' \<subseteq> B \<Longrightarrow> A \<inter> B = {} \<Longrightarrow> A \<inter> B' = {}"
  by blast

lemma bulk_size:
  assumes d: "distinct (map fst ds)"
    and perm: "\<And>xs. mset (as_completed w xs) = mset xs"
  shows "length (returned (get_bulk_weather_data w p ds h ct db)) =
         length (hits w p h (effective_ttl w ct) db ds) +
         length (filter (\<lambda>i. fetched w h i \<noteq> None)
                 (fetch_calls (get_bulk_weather_data w p ds h ct db)))
       \<and> distinct (map fst (returned (get_bulk_weather_data w p ds h ct db)))"
proof -
  let ?t = "effective_ttl w ct"
  have a: "mset (map fst (returned (get_bulk_weather_data w p ds h ct db))) =
         mset (map fst (hits w p h ?t db ds)) +
         mset (map fst (filter (\<lambda>i. fetched w h i \<noteq> None) (misses w p h ?t db ds)))"
    using bulk_keys [OF d perm] by (simp add: bulk_fetch_calls)
  have l: "length (returned (get_bulk_weather_data w p ds h ct db)) =
         length (hits w p h ?t db ds) +
         length (filter (\<lambda>i. fetched w h i \<noteq> None) (misses w p h ?t db ds))"
    using arg_cong [OF a, of size] by (simp only: size_mset size_union length_map)
  have d1: "distinct (map fst (hits w p h ?t db ds))"
    using d by (simp add: hits_def distinct_map_filter)
  have d2: "distinct (map fst (filter (\<lambda>i. fetched w h i \<noteq> None) (misses w p h ?t db ds)))"
    using misses_distinct [OF d, of w p h ?t db] by (simp add: distinct_map_filter)
  have "fst ` set (filter (\<lambda>i. fetched w h i \<noteq> None) (misses w p h ?t db ds))
          \<subseteq> fst ` set (misses w p h ?t db ds)"
    by (rule image_mono) simp
  moreover have "fst ` set (hits w p h ?t db ds) \<inter> fst ` set (misses w p h ?t db ds) = {}"
    by (auto simp: hits_names misses_names)
  ultimately have d3: "fst ` set (hits w p h ?t db ds) \<inter>
         fst ` set (filter (\<lambda>i. fetched w h i \<noteq> None) (misses w p h ?t db ds)) = {}"
    by (rule disjoint_mono_right)
  have "distinct (map fst (hits w p h ?t db ds) @
          map fst (filter (\<lambda>i. fetched w h i \<noteq> None) (misses w p h ?t db ds)))"
    unfolding distinct_append set_map using d1 d2 d3 by (intro conjI)
  then have "distinct (map fst (returned (get_bulk_weather_data w p ds h ct db)))"
    using mset_eq_imp_distinct_iff [OF a [folded mset_append]] by simp
  with l show ?thesis by (simp add: bulk_fetch_calls)
qed

subsection \<open>The bulk fetch: which districts are fetched, what is returned\<close>

text \<open>A hit, in terms of the row: live for the store, decodable, younger than the TTL.\<close>

lemma cache_hit_row:
  "cache_hit w p h t db n = Some v \<longleftrightarrow>
     (\<exists>row. select_live (now w) (weather_key (sanitize_filename w) h p n) (weather_cache db) = Some row \<and>
            json_loads w (data row) = Some v \<and> datetime_now (now w) - created_at row < t)"
  by (auto simp: cache_hit_def get_raw_weather_cache_def split: option.splits if_splits)

lemma misses_names_list:
  "map fst (misses w p h t db ds) = filter (\<lambda>n. cache_hit w p h t db n = None) (map fst ds)"
  by (induction ds) (auto simp: misses_def)

lemma misses_nil_iff:
  "misses w p h t db ds = [] \<longleftrightarrow> (\<forall>n \<in> fst ` set ds. cache_hit w p h t db n \<noteq> None)"
  by (auto simp: misses_def filter_empty_conv image_iff)

text \<open>
  The calls and the result in terms of the code's own test for a hit
  (\<^const>\<open>cache_hit\<close>: the store returns the row, and the local
  \<^verbatim>\<open>datetime.now()\<close> minus the row's \<^verbatim>\<open>created_at\<close>, which is UTC, is below the
  effective TTL). For every call of \<^verbatim>\<open>get_bulk_weather_data\<close> on a dict of
  districts (its keys are distinct) and every order in which the futures finish: the
  fetch calls submitted are exactly the districts that are no hit, one call each, in
  the order of the dict; when every district is a hit no call is made and the cached
  payloads are returned; when none is, there is one call per district; an empty dict
  gives an empty result and no call; and the result has as many entries as there are
  hits and fetches that gave a payload.
\<close>

lemma get_bulk_weather_data_fetches:
  assumes "distinct (map fst ds)"
    and "\<And>xs. mset (as_completed w xs) = mset xs"
  shows
    "fetch_calls (get_bulk_weather_data w p ds h ct db) = misses w p h (effective_ttl w ct) db ds \<and>
     map fst (fetch_calls (get_bulk_weather_data w p ds h ct db)) =
       filter (\<lambda>n. cache_hit w p h (effective_ttl w ct) db n = None) (map fst ds) \<and>
     ((\<forall>n \<in> fst ` set ds. cache_hit w p h (effective_ttl w ct) db n \<noteq> None) \<longrightarrow>
        fetch_calls (get_bulk_weather_data w p ds h ct db) = [] \<and>
        (\<forall>n \<in> fst ` set ds. map_of (returned (get_bulk_weather_data w p ds h ct db)) n =
             cache_hit w p h (effective_ttl w ct) db n)) \<and>
     ((\<forall>n \<in> fst ` set ds. cache_hit w p h (effective_ttl w ct) db n = None) \<longrightarrow>
        map fst (fetch_calls (get_bulk_weather_data w p ds h ct db)) = map fst ds) \<and>
     (ds = [] \<longrightarrow>
        returned (get_bulk_weather_data w p ds h ct db) = [] \<and>
        fetch_calls (get_bulk_weather_data w p ds h ct db) = []) \<and>
     length (returned (get_bulk_weather_data w p ds h ct db)) =
       length (hits w p h (effective_ttl w ct) db ds) +
       length (filter (\<lambda>i. fetched w h i \<noteq> None)
                 (fetch_calls (get_bulk_weather_data w p ds h ct db))) \<and>
     distinct (map fst (returned (get_bulk_weather_data w p ds h ct db)))"
proof -
  let ?t = "effective_ttl w ct"
  let ?b = "get_bulk_weather_data w p ds h ct db"
  have c: "fetch_calls ?b = misses w p h ?t db ds"
    by (rule bulk_fetch_calls)
  have n: "map fst (fetch_calls ?b) = filter (\<lambda>n. cache_hit w p h ?t db n = None) (map fst ds)"
    by (simp add: c misses_names_list)
  have a: "fetch_calls ?b = [] \<and> (\<forall>n \<in> fst ` set ds. map_of (returned ?b) n = cache_hit w p h ?t db n)"
    if all: "\<forall>n \<in> fst ` set ds. cache_hit w p h ?t db n \<noteq> None"
  proof
    show "fetch_calls ?b = []"
      using all by (simp add: c misses_nil_iff)
    show "\<forall>n \<in> fst ` set ds. map_of (returned ?b) n = cache_hit w p h ?t db n"
    proof
      fix n assume "n \<in> fst ` set ds"
      then obtain co where m: "(n, co) \<in> set ds" by auto
      from all m obtain v where v: "cache_hit w p h ?t db n = Some v" by force
      show "map_of (returned ?b) n = cache_hit w p h ?t db n"
        using bulk_entry [OF assms(1) assms(2) m, of p h ct db] v by simp
    qed
  qed
  have z: "map fst (fetch_calls ?b) = map fst ds"
    if "\<forall>n \<in> fst ` set ds. cache_hit w p h ?t db n = None"
    using that by (simp add: n filter_id_conv)
  have e: "returned ?b = [] \<and> fetch_calls ?b = []" if "ds = []"
    using that by (simp add: bulk_unfold misses_def)
  from c n a z e bulk_size [OF assms, of p h ct db] show ?thesis
    by blast
qed

text \<open>
  The scenario of the specification on a server whose local time is UTC: LAHORE fresh,
  MULTAN expired, KASUR never cached; fetches go out for exactly MULTAN and KASUR,
  KASUR fails, the result has two entries.
\<close>

lemma mset_rev_all: "\<forall>xs. mset (as_completed scenario_world xs) = mset xs"
  by (simp add: scenario_world_def example_world_def)

lemma scenario_key:
  "weather_key (sanitize_filename scenario_world) 3 ''PUNJAB'' n = ''weather_3_PUNJAB_'' @ n"
  by (simp add: weather_key_def scenario_world_def example_world_def str_int_def str_nat.simps
      digit_char_def)

lemma scenario_hits:
  "cache_hit scenario_world ''PUNJAB'' 3 300 scenario_db ''LAHORE'' = Some lahore_payload"
  "cache_hit scenario_world ''PUNJAB'' 3 300 scenario_db ''MULTAN'' = None"
  "cache_hit scenario_world ''PUNJAB'' 3 300 scenario_db ''KASUR'' = None"
  unfolding cache_hit_def scenario_key
  by (simp_all add: get_raw_weather_cache_def select_live_def
      scenario_db_def lahore_fresh_def multan_stale_def scenario_world_def example_world_def
      example_loads_def at_def)

lemma get_bulk_weather_data_fetches_example:
  "distinct (map fst scenario_districts) \<and>
   (\<forall>xs. mset (as_completed scenario_world xs) = mset xs) \<and>
   map fst (fetch_calls (get_bulk_weather_data scenario_world ''PUNJAB'' scenario_districts 3 None
      scenario_db)) = [''MULTAN'', ''KASUR''] \<and>
   length (returned (get_bulk_weather_data scenario_world ''PUNJAB'' scenario_districts 3 None
      scenario_db)) = 2 \<and>
   fetch_calls (get_bulk_weather_data scenario_world ''PUNJAB'' [] 3 None scenario_db) = [] \<and>
   returned (get_bulk_weather_data scenario_world ''PUNJAB'' [] 3 None scenario_db) = []"
proof -
  have d: "distinct (map fst scenario_districts)"
    by (simp add: scenario_districts_def)
  have d0: "distinct (map fst ([] :: (string \<times> int \<times> int) list))"
    by simp
  have t: "effective_ttl scenario_world None = 300"
    by (simp add: effective_ttl_def scenario_world_def example_world_def)
  have f: "fetched scenario_world 3 (''MULTAN'', multan_coords, ''weather_3_PUNJAB_MULTAN'') \<noteq> None"
    "fetched scenario_world 3 (''KASUR'', kasur_coords, ''weather_3_PUNJAB_KASUR'') = None"
    by (simp_all add: fetched_def fetch_single_district_def scenario_world_def example_world_def
        multan_coords_def kasur_coords_def lahore_payload_def)
  note th = get_bulk_weather_data_fetches [OF d mset_rev_all [rule_format],
      of "''PUNJAB''" 3 None scenario_db]
  note th0 = get_bulk_weather_data_fetches [OF d0 mset_rev_all [rule_format],
      of "''PUNJAB''" 3 None scenario_db]
  have m: "misses scenario_world ''PUNJAB'' 3 300 scenario_db scenario_districts =
      [(''MULTAN'', multan_coords, ''weather_3_PUNJAB_MULTAN''),
       (''KASUR'', kasur_coords, ''weather_3_PUNJAB_KASUR'')]"
    by (simp add: misses_def scenario_districts_def scenario_hits scenario_key)
  have hh: "hits scenario_world ''PUNJAB'' 3 300 scenario_db scenario_districts =
      [(''LAHORE'', lahore_coords)]"
    by (simp add: hits_def scenario_districts_def scenario_hits)
  from th have "map fst (fetch_calls (get_bulk_weather_data scenario_world ''PUNJAB''
      scenario_districts 3 None scenario_db)) = [''MULTAN'', ''KASUR'']"
    by (simp add: t m)
  moreover from th have "length (returned (get_bulk_weather_data scenario_world ''PUNJAB''
      scenario_districts 3 None scenario_db)) = 2"
    by (simp add: t m hh f)
  moreover from th0 have "fetch_calls (get_bulk_weather_data scenario_world ''PUNJAB'' [] 3 None
      scenario_db) = [] \<and>
      returned (get_bulk_weather_data scenario_world ''PUNJAB'' [] 3 None scenario_db) = []"
    by blast
  ultimately show ?thesis using d mset_rev_all by blast
qed


lemma cache_hit_session [simp]:
  "cache_hit (w\<lparr>session_get := sg\<rparr>) p h t db n = cache_hit w p h t db n"
  by (simp add: cache_hit_def cong: option.case_cong prod.case_cong)

lemma fetched_session:
  "sg co h = session_get w co h \<Longrightarrow>
   fetched (w\<lparr>session_get := sg\<rparr>) h (n, co, key) = fetched w h (n, co, key)"
  by (simp add: fetched_def fetch_single_district_def)

text \<open>
  C1. On a server whose local time is five hours ahead of UTC, with a TTL of 300
  seconds: LAHORE is written to the cache and \<^verbatim>\<open>get_bulk_weather_data\<close> is called
  for LAHORE at the same moment. The store returns the row, zero seconds old; the
  code takes its age to be \<^verbatim>\<open>datetime.now() - created_at\<close>, local time minus UTC,
  18000 seconds, and fetches LAHORE. With the local clock at UTC the same call makes
  no fetch call and returns the cached payload.
\<close>

theorem fresh_entry_is_fetched:
  "weather_cache (set_raw_weather_cache example_dumps 300 karachi_clock empty_db
      ''weather_3_PUNJAB_LAHORE'' lahore_payload) =
     [\<lparr>cache_key = ''weather_3_PUNJAB_LAHORE'', data = ''{\"current\": {\"temperature\": 20}}'',
       created_at = current_timestamp karachi_clock, expires_at = 19300\<rparr>] \<and>
   effective_ttl karachi_world None = 300 \<and>
   fst (get_raw_weather_cache example_loads karachi_clock
          (set_raw_weather_cache example_dumps 300 karachi_clock empty_db
             ''weather_3_PUNJAB_LAHORE'' lahore_payload) ''weather_3_PUNJAB_LAHORE'') =
     Some (lahore_payload, current_timestamp karachi_clock) \<and>
   fetch_calls (get_bulk_weather_data karachi_world ''PUNJAB'' [(''LAHORE'', lahore_coords)] 3 None
      (set_raw_weather_cache example_dumps 300 karachi_clock empty_db
         ''weather_3_PUNJAB_LAHORE'' lahore_payload)) =
     [(''LAHORE'', lahore_coords, ''weather_3_PUNJAB_LAHORE'')] \<and>
   fetch_calls (get_bulk_weather_data scenario_world ''PUNJAB'' [(''LAHORE'', lahore_coords)] 3 None
      (set_raw_weather_cache example_dumps 300 (at 1000) empty_db
         ''weather_3_PUNJAB_LAHORE'' lahore_payload)) = [] \<and>
   returned (get_bulk_weather_data scenario_world ''PUNJAB'' [(''LAHORE'', lahore_coords)] 3 None
      (set_raw_weather_cache example_dumps 300 (at 1000) empty_db
         ''weather_3_PUNJAB_LAHORE'' lahore_payload)) = [(''LAHORE'', lahore_payload)]"
proof -
  let ?k = "''weather_3_PUNJAB_LAHORE''"
  let ?db = "set_raw_weather_cache example_dumps 300 karachi_clock empty_db ?k lahore_payload"
  let ?utc = "set_raw_weather_cache example_dumps 300 (at 1000) empty_db ?k lahore_payload"
  have c: "current_timestamp karachi_clock = 1000" "datetime_now karachi_clock = 19000"
    by (simp_all add: karachi_clock_def)
  have a: "current_timestamp (at 1000) = 1000" "datetime_now (at 1000) = 1000"
    by (simp_all add: at_def)
  have w: "weather_cache ?db =
     [\<lparr>cache_key = ?k, data = ''{\"current\": {\"temperature\": 20}}'',
       created_at = current_timestamp karachi_clock, expires_at = 19300\<rparr>]"
    by (simp add: set_raw_weather_cache_def insert_or_replace_def example_dumps_def
        c empty_db_def)
  have w0: "weather_cache ?utc =
     [\<lparr>cache_key = ?k, data = ''{\"current\": {\"temperature\": 20}}'',
       created_at = 1000, expires_at = 1300\<rparr>]"
    by (simp add: set_raw_weather_cache_def insert_or_replace_def example_dumps_def
        a empty_db_def)
  have t: "effective_ttl karachi_world None = 300" "effective_ttl scenario_world None = 300"
    by (simp_all add: effective_ttl_def karachi_world_def scenario_world_def example_world_def)
  have g: "fst (get_raw_weather_cache example_loads karachi_clock ?db ?k) =
     Some (lahore_payload, current_timestamp karachi_clock)"
    by (simp add: get_raw_weather_cache_def select_live_def w example_loads_def c)
  have key: "weather_key (sanitize_filename karachi_world) 3 ''PUNJAB'' ''LAHORE'' = ?k"
    "weather_key (sanitize_filename scenario_world) 3 ''PUNJAB'' ''LAHORE'' = ?k"
    by (simp_all add: weather_key_def karachi_world_def scenario_world_def example_world_def
        str_int_def str_nat.simps digit_char_def)
  have kw: "json_loads karachi_world = example_loads" "now karachi_world = karachi_clock"
    "json_loads scenario_world = example_loads" "now scenario_world = at 1000"
    by (simp_all add: karachi_world_def scenario_world_def example_world_def)
  have h: "cache_hit karachi_world ''PUNJAB'' 3 300 ?db ''LAHORE'' = None"
    unfolding cache_hit_def key kw
    by (simp add: get_raw_weather_cache_def select_live_def w example_loads_def c)
  have h0: "cache_hit scenario_world ''PUNJAB'' 3 300 ?utc ''LAHORE'' = Some lahore_payload"
    unfolding cache_hit_def key kw
    by (simp add: get_raw_weather_cache_def select_live_def w0 example_loads_def a)
  have c: "fetch_calls (get_bulk_weather_data karachi_world ''PUNJAB'' [(''LAHORE'', lahore_coords)]
      3 None ?db) = [(''LAHORE'', lahore_coords, ?k)]"
    by (simp add: bulk_fetch_calls t misses_def h key)
  have m0: "misses scenario_world ''PUNJAB'' 3 300 ?utc [(''LAHORE'', lahore_coords)] = []"
    by (simp add: misses_def h0)
  have c0: "fetch_calls (get_bulk_weather_data scenario_world ''PUNJAB'' [(''LAHORE'', lahore_coords)]
      3 None ?utc) = []"
    by (simp add: bulk_fetch_calls t m0)
  have r0: "returned (get_bulk_weather_data scenario_world ''PUNJAB'' [(''LAHORE'', lahore_coords)]
      3 None ?utc) = [(''LAHORE'', lahore_payload)]"
    by (simp add: bulk_unfold t m0 classify_step h0)
  from w t(1) g c c0 r0 show ?thesis by blast
qed

text \<open>
  C3. A district that is no hit and whose fetch gives no payload is absent from the
  dict returned, and nothing is raised: \<^verbatim>\<open>get_bulk_weather_data\<close> returns for
  every outcome of every request. The entries of all other districts are the ones
  returned when the upstream API answers differently for the failing district and the
  same for the others.
\<close>

theorem failed_fetch_is_dropped:
  assumes d: "distinct (map fst ds)"
    and perm: "\<And>xs. mset (as_completed w xs) = mset xs"
    and m: "(n, co) \<in> set ds"
    and miss: "cache_hit w p h (effective_ttl w ct) db n = None"
    and failed: "fetched w h (n, co, weather_key (sanitize_filename w) h p n) = None"
    and others: "\<forall>(n', co') \<in> set ds. n' \<noteq> n \<longrightarrow> sg co' h = session_get w co' h"
  shows "map_of (returned (get_bulk_weather_data w p ds h ct db)) n = None \<and>
         (\<forall>n'. n' \<noteq> n \<longrightarrow>
            map_of (returned (get_bulk_weather_data w p ds h ct db)) n' =
            map_of (returned (get_bulk_weather_data (w\<lparr>session_get := sg\<rparr>) p ds h ct db)) n')"
proof (intro conjI allI impI)
  show "map_of (returned (get_bulk_weather_data w p ds h ct db)) n = None"
    using bulk_entry [OF d perm m, of p h ct db] miss failed by simp
next
  fix n' assume ne: "n' \<noteq> n"
  let ?w = "w\<lparr>session_get := sg\<rparr>"
  have perm': "\<And>xs. mset (as_completed ?w xs) = mset xs"
    using perm by simp
  have t: "effective_ttl ?w ct = effective_ttl w ct"
    by (simp add: effective_ttl_def cong: option.case_cong)
  show "map_of (returned (get_bulk_weather_data w p ds h ct db)) n' =
        map_of (returned (get_bulk_weather_data ?w p ds h ct db)) n'"
  proof (cases "n' \<in> fst ` set ds")
    case True
    then obtain co' where m': "(n', co') \<in> set ds" by auto
    with others ne have "sg co' h = session_get w co' h" by auto
    then have "fetched ?w h (n', co', weather_key (sanitize_filename w) h p n') =
               fetched w h (n', co', weather_key (sanitize_filename w) h p n')"
      by (rule fetched_session)
    then show ?thesis
      using bulk_entry [OF d perm m', of p h ct db] bulk_entry [OF d perm' m', of p h ct db]
      by (simp add: t cong: option.case_cong)
  next
    case False
    then show ?thesis
      using bulk_entry_other [OF False perm, of p h ct db]
        bulk_entry_other [OF False perm', of p h ct db] by simp
  qed
qed

theorem failed_fetch_is_dropped_witness:
  "(''KASUR'', kasur_coords) \<in> set scenario_districts \<and>
   cache_hit scenario_world ''PUNJAB'' 3 (effective_ttl scenario_world None) scenario_db ''KASUR'' = None \<and>
   fetched scenario_world 3 (''KASUR'', kasur_coords, ''weather_3_PUNJAB_KASUR'') = None \<and>
   map_of (returned (get_bulk_weather_data scenario_world ''PUNJAB'' scenario_districts 3 None
      scenario_db)) ''KASUR'' = None \<and>
   map_of (returned (get_bulk_weather_data scenario_world ''PUNJAB'' scenario_districts 3 None
      scenario_db)) ''MULTAN'' =
   map_of (returned (get_bulk_weather_data
      (scenario_world\<lparr>session_get := \<lambda>coords days. Response 200 (Inr lahore_payload)\<rparr>)
      ''PUNJAB'' scenario_districts 3 None scenario_db)) ''MULTAN''"
proof -
  have d: "distinct (map fst scenario_districts)"
    by (simp add: scenario_districts_def)
  have m: "(''KASUR'', kasur_coords) \<in> set scenario_districts"
    by (simp add: scenario_districts_def)
  have t: "effective_ttl scenario_world None = 300"
    by (simp add: effective_ttl_def scenario_world_def example_world_def)
  have miss: "cache_hit scenario_world ''PUNJAB'' 3 (effective_ttl scenario_world None) scenario_db
      ''KASUR'' = None"
    by (simp add: t scenario_hits)
  have f: "fetched scenario_world 3 (''KASUR'', kasur_coords, ''weather_3_PUNJAB_KASUR'') = None"
    by (simp add: fetched_def fetch_single_district_def scenario_world_def example_world_def)
  have failed: "fetched scenario_world 3
      (''KASUR'', kasur_coords, weather_key (sanitize_filename scenario_world) 3 ''PUNJAB'' ''KASUR'') = None"
    using f by (simp add: scenario_key)
  have others: "\<forall>(n', co') \<in> set scenario_districts. n' \<noteq> ''KASUR'' \<longrightarrow>
      (\<lambda>coords days. Response 200 (Inr lahore_payload)) co' 3 = session_get scenario_world co' 3"
    by (simp add: scenario_districts_def scenario_world_def example_world_def lahore_coords_def
        multan_coords_def kasur_coords_def)
  note th = failed_fetch_is_dropped [OF d mset_rev_all [rule_format] m miss failed others]
  from th m miss f show ?thesis by simp
qed

subsection \<open>The task runner\<close>

lemma run_task_keeps_records:
  "task_results (run_task m task_id th) = task_results m \<and>
   task_errors (run_task m task_id th) = task_errors m"
  by (simp add: run_task_def)

lemma wrapper_results:
  "task_results (fst (wrapper m task_id th out)) =
     (case out of Returned r \<Rightarrow> (task_results m)(task_id \<mapsto> r) | _ \<Rightarrow> task_results m)"
  by (cases out) (simp_all add: wrapper_def Let_def)

lemma wrapper_errors:
  "task_errors (fst (wrapper m task_id th out)) =
     (case out of Raised e \<Rightarrow> (task_errors m)(task_id \<mapsto> e) | _ \<Rightarrow> task_errors m)"
  by (cases out) (simp_all add: wrapper_def Let_def)

lemma wrapper_tasks:
  "tasks (fst (wrapper m task_id th out)) = (tasks m)(task_id := None)"
  by (cases out) (auto simp: wrapper_def Let_def)

lemma wrapper_raised:
  "snd (wrapper m task_id th out) = (case out of Exited b \<Rightarrow> Some b | _ \<Rightarrow> None)"
  by (simp add: wrapper_def Let_def)

text \<open>The events of other tasks leave the records of a task id as they are.\<close>

lemma step_other:
  "event_task e \<noteq> task_id \<Longrightarrow>
   tasks (step e m) task_id = tasks m task_id \<and>
   task_results (step e m) task_id = task_results m task_id \<and>
   task_errors (step e m) task_id = task_errors m task_id"
proof (cases e)
  case (Scheduled i th)
  then show "event_task e \<noteq> task_id \<Longrightarrow> ?thesis"
    by (simp add: run_task_def)
next
  case (Finished i th out)
  then show "event_task e \<noteq> task_id \<Longrightarrow> ?thesis"
    by (cases out) (simp_all add: wrapper_results wrapper_errors wrapper_tasks)
qed

lemma run_events_other:
  "\<forall>e \<in> set es. event_task e \<noteq> task_id \<Longrightarrow>
   tasks (run_events es m) task_id = tasks m task_id \<and>
   task_results (run_events es m) task_id = task_results m task_id \<and>
   task_errors (run_events es m) task_id = task_errors m task_id"
proof (induction es arbitrary: m)
  case Nil
  then show ?case by (simp add: run_events_def)
next
  case (Cons e es)
  then have "event_task e \<noteq> task_id" and "\<forall>e \<in> set es. event_task e \<noteq> task_id"
    by simp_all
  with Cons.IH [of "step e m"] step_other [of e task_id m] show ?case
    by (simp add: run_events_def)
qed

lemma task_life_pair:
  "task_life m task_id th during out later =
     (run_events later (fst (wrapper (run_events during (run_task m task_id th)) task_id th out)),
      snd (wrapper (run_events during (run_task m task_id th)) task_id th out))"
  by (simp add: task_life_def split: prod.splits)

lemma task_life_records:
  assumes during: "\<forall>e \<in> set during. event_task e \<noteq> task_id"
    and later: "\<forall>e \<in> set later. event_task e \<noteq> task_id"
  shows "tasks (fst (task_life m task_id th during out later)) task_id = None \<and>
         task_results (fst (task_life m task_id th during out later)) task_id =
           (case out of Returned r \<Rightarrow> Some r | _ \<Rightarrow> task_results m task_id) \<and>
         task_errors (fst (task_life m task_id th during out later)) task_id =
           (case out of Raised e \<Rightarrow> Some e | _ \<Rightarrow> task_errors m task_id) \<and>
         snd (task_life m task_id th during out later) =
           (case out of Exited b \<Rightarrow> Some b | _ \<Rightarrow> None)"
proof -
  let ?m1 = "run_events during (run_task m task_id th)"
  note l = task_life_pair [of m task_id th during out later]
  have m1: "task_results ?m1 task_id = task_results m task_id \<and>
            task_errors ?m1 task_id = task_errors m task_id"
    using run_events_other [OF during, of "run_task m task_id th"]
    by (simp add: run_task_keeps_records)
  show ?thesis
    unfolding l fst_conv snd_conv
    using run_events_other [OF later, of "fst (wrapper ?m1 task_id th out)"] m1
    by (cases out) (simp_all add: wrapper_results wrapper_errors wrapper_tasks wrapper_raised)
qed

text \<open>
  C5, as amended. For every task scheduled under an id that no other run on the
  manager shares (no event while its unit of work runs or afterwards has its id) and
  for which neither map holds an entry yet, whose unit of work returns or raises an
  \<^verbatim>\<open>Exception\<close>: once its wrapper has ended, and whatever other tasks do then,
  exactly one of \<^verbatim>\<open>task_results\<close> and \<^verbatim>\<open>task_errors\<close> holds an entry for the id,
  the result where it returned and the exception's text where it raised; the id is no
  longer in \<^verbatim>\<open>tasks\<close> and \<^verbatim>\<open>is_running\<close> is false for it; and no exception left
  the wrapper. A unit of work that ends in a \<^verbatim>\<open>BaseException\<close> that is no
  \<^verbatim>\<open>Exception\<close> leaves no entry in either map; its id leaves \<^verbatim>\<open>tasks\<close> all the
  same, and the exception leaves the wrapper.
\<close>

theorem task_records_outcome:
  assumes "task_results m task_id = None" and "task_errors m task_id = None"
    and "\<forall>e \<in> set (during @ later). event_task e \<noteq> task_id"
  shows
    "(case out of
        Returned r \<Rightarrow>
          get_result (fst (task_life m task_id th during out later)) task_id = Some r \<and>
          get_error (fst (task_life m task_id th during out later)) task_id = None \<and>
          snd (task_life m task_id th during out later) = None
      | Raised e \<Rightarrow>
          get_error (fst (task_life m task_id th during out later)) task_id = Some e \<and>
          get_result (fst (task_life m task_id th during out later)) task_id = None \<and>
          snd (task_life m task_id th during out later) = None
      | Exited b \<Rightarrow>
          get_result (fst (task_life m task_id th during out later)) task_id = None \<and>
          get_error (fst (task_life m task_id th during out later)) task_id = None \<and>
          snd (task_life m task_id th during out later) = Some b) \<and>
     ((\<forall>b. out \<noteq> Exited b) \<longrightarrow>
        ((task_results (fst (task_life m task_id th during out later)) task_id \<noteq> None) \<noteq>
         (task_errors (fst (task_life m task_id th during out later)) task_id \<noteq> None))) \<and>
     tasks (fst (task_life m task_id th during out later)) task_id = None \<and>
     \<not> is_running (fst (task_life m task_id th during out later)) task_id"
proof -
  have d: "\<forall>e \<in> set during. event_task e \<noteq> task_id"
    and l: "\<forall>e \<in> set later. event_task e \<noteq> task_id"
    using assms(3) by simp_all
  from task_life_records [OF d l, of m th out] assms(1, 2) show ?thesis
    by (cases out) (simp_all add: get_result_def get_error_def is_running_def)
qed

text \<open>
  A task that raises, with another task scheduled while it runs and ending after it.
\<close>

theorem task_records_outcome_witness:
  "task_results (new_manager :: string manager) example_task = None \<and>
   task_errors (new_manager :: string manager) example_task = None \<and>
   event_task (Scheduled ''alerts_SINDH_3_1700000001.5'' 2 :: string event) \<noteq> example_task \<and>
   event_task (Finished ''alerts_SINDH_3_1700000001.5'' 2 (Returned ''ok'')) \<noteq> example_task \<and>
   get_error (fst (task_life new_manager example_task 1
      [Scheduled ''alerts_SINDH_3_1700000001.5'' 2] (Raised ''boom'')
      [Finished ''alerts_SINDH_3_1700000001.5'' 2 (Returned ''ok'')])) example_task = Some ''boom'' \<and>
   get_result (fst (task_life new_manager example_task 1
      [Scheduled ''alerts_SINDH_3_1700000001.5'' 2] (Raised ''boom'')
      [Finished ''alerts_SINDH_3_1700000001.5'' 2 (Returned ''ok'')])) example_task = None \<and>
   snd (task_life new_manager example_task 1
      [Scheduled ''alerts_SINDH_3_1700000001.5'' 2] (Raised ''boom'')
      [Finished ''alerts_SINDH_3_1700000001.5'' 2 (Returned ''ok'')]) = None \<and>
   \<not> is_running (fst (task_life new_manager example_task 1
      [Scheduled ''alerts_SINDH_3_1700000001.5'' 2] (Raised ''boom'')
      [Finished ''alerts_SINDH_3_1700000001.5'' 2 (Returned ''ok'')])) example_task"
proof -
  have r: "task_results (new_manager :: string manager) example_task = None"
    by (simp add: new_manager_def)
  have e: "task_errors (new_manager :: string manager) example_task = None"
    by (simp add: new_manager_def)
  have o1: "event_task (Scheduled ''alerts_SINDH_3_1700000001.5'' 2 :: string event) \<noteq> example_task"
    by (simp add: example_task_def)
  have o2: "event_task (Finished ''alerts_SINDH_3_1700000001.5'' 2 (Returned ''ok'')) \<noteq> example_task"
    by (simp add: example_task_def)
  have o: "\<forall>e \<in> set ([Scheduled ''alerts_SINDH_3_1700000001.5'' 2] @
      [Finished ''alerts_SINDH_3_1700000001.5'' 2 (Returned ''ok'')]). event_task e \<noteq> example_task"
    using o1 o2 by simp
  from task_records_outcome [OF r e o, of 1 "Raised ''boom''"] r e o1 o2 show ?thesis
    by simp
qed

text \<open>
  C5 as stated fails in two ways. Two tasks scheduled under one id while neither map
  holds an entry, the first raising and the second returning, end with an entry in
  both maps. And a unit of work that ends in \<^verbatim>\<open>SystemExit\<close> ends with an entry in
  neither, the exception leaving the wrapper.
\<close>

theorem task_records_counterexample:
  "task_results (new_manager :: string manager) example_task = None \<and>
   task_errors (new_manager :: string manager) example_task = None \<and>
   task_results (fst (task_life new_manager example_task 1
      [Scheduled example_task 2] (Raised ''boom'')
      [Finished example_task 2 (Returned ''done'')])) example_task = Some ''done'' \<and>
   task_errors (fst (task_life new_manager example_task 1
      [Scheduled example_task 2] (Raised ''boom'')
      [Finished example_task 2 (Returned ''done'')])) example_task = Some ''boom'' \<and>
   task_results (fst (task_life (new_manager :: string manager) example_task 1
      [] (Exited ''SystemExit'') [])) example_task = None \<and>
   task_errors (fst (task_life (new_manager :: string manager) example_task 1
      [] (Exited ''SystemExit'') [])) example_task = None \<and>
   snd (task_life (new_manager :: string manager) example_task 1
      [] (Exited ''SystemExit'') []) = Some ''SystemExit''"
  by (simp add: task_life_pair run_events_def wrapper_results wrapper_errors wrapper_raised
      run_task_keeps_records new_manager_def)

subsection \<open>The two queries of the batch alert lookup\<close>

lemma or_chain_holds:
  "ks \<noteq> [] \<Longrightarrow>
   holds clk (or_chain_where ks) r =
     (key_of r \<in> set (butlast ks) \<or>
      key_of r = last ks \<and> current_timestamp clk < alert_expires_at r)"
  by (induction ks rule: or_chain_where.induct) auto

lemma tuple_in_holds:
  "holds clk (tuple_in_where ks) r =
     (key_of r \<in> set ks \<and> current_timestamp clk < alert_expires_at r)"
  by (simp add: tuple_in_where_def)

text \<open>On a table without expired rows the two queries return the same.\<close>

lemma get_alerts_batch_agree_live:
  assumes "\<forall>r \<in> set (alerts db). current_timestamp clk < alert_expires_at r"
  shows "get_alerts_batch True clk db ks = get_alerts_batch False clk db ks"
proof (cases "ks = []")
  case True
  then show ?thesis by (simp add: get_alerts_batch_def)
next
  case False
  then have "set ks = insert (last ks) (set (butlast ks))"
    by (cases ks rule: rev_cases) auto
  then have "filter (holds clk (tuple_in_where ks)) (alerts db) =
        filter (holds clk (or_chain_where ks)) (alerts db)"
    using assms False by (intro filter_cong) (auto simp: or_chain_holds tuple_in_holds)
  with False show ?thesis by (simp add: get_alerts_batch_def)
qed

text \<open>
  C9. The two queries differ on a table with an expired row: at time 4000 every alert
  of the example has expired (\<^verbatim>\<open>expires_at\<close> 3600); asked for LAHORE and MULTAN at
  horizon 3, the row-value query returns nothing, the \<^verbatim>\<open>OR\<close> chain returns the
  expired alert of LAHORE, the key of a condition that is not the last of the chain.
\<close>

theorem get_alerts_batch_fallback_differs:
  "get_alerts_batch True (at 4000) punjab_db
     [(''PUNJAB'', ''LAHORE'', 3), (''PUNJAB'', ''MULTAN'', 3)] = [] \<and>
   get_alerts_batch False (at 4000) punjab_db
     [(''PUNJAB'', ''LAHORE'', 3), (''PUNJAB'', ''MULTAN'', 3)] =
     [((''PUNJAB'', ''LAHORE'', 3), ''Heavy rain'')]"
  by (simp add: get_alerts_batch_def tuple_in_where_def key_of_def alert_result_row_def
      punjab_db_def punjab_alerts_def alert_of_def at_def)


subsection \<open>The alert task when the fetch gives nothing\<close>

lemma handle_fold_empty:
  "fst (fold (handle_result w) (map (fetch_single_district w days) infos) (c, db)) = [] \<Longrightarrow>
   fold (handle_result w) (map (fetch_single_district w days) infos) (c, db) = (c, db)"
proof (induction infos arbitrary: c db)
  case Nil
  then show ?case by simp
next
  case (Cons i infos)
  obtain n co key where i: "i = (n, co, key)" by (cases i)
  show ?case
  proof (cases "fetched w days (n, co, key)")
    case None
    with Cons i show ?thesis by (simp add: handle_step)
  next
    case (Some d)
    let ?db = "set_raw_weather_cache (json_dumps w) (CACHE_TIME w) (now w) db key d"
    from Cons.prems i Some
    have e: "fst (fold (handle_result w) (map (fetch_single_district w days) infos)
               (AList.update n d c, ?db)) = []"
      by (simp add: handle_step)
    from Cons.IH [OF e] e have "AList.update n d c = []" by simp
    then show ?thesis by simp
  qed
qed

lemma bulk_empty_store:
  "returned (get_bulk_weather_data w p ds h ct db) = [] \<Longrightarrow>
   store (get_bulk_weather_data w p ds h ct db) = db"
  by (auto simp: bulk_unfold dest: handle_fold_empty split: if_splits)

lemma generate_alerts_task_nothing:
  "returned (get_bulk_weather_data w p ds h (Some 0) db) = [] \<Longrightarrow>
   generate_alerts_task w steps p ds h db = (Returned None, db)"
  by (simp add: generate_alerts_task_def Let_def bulk_empty_store)

text \<open>
  Whenever the fetch gives nothing, the task returns \<^verbatim>\<open>None\<close>: the runner stores
  it as the task's result, the error slot and the store stay as they were.
\<close>

lemma run_generate_alerts_nothing:
  assumes "returned (get_bulk_weather_data w p ds h (Some 0) db) = []"
  shows "snd (run_generate_alerts m task_id th w steps p ds h db) = db \<and>
         get_result (fst (run_generate_alerts m task_id th w steps p ds h db)) task_id = Some None \<and>
         get_error (fst (run_generate_alerts m task_id th w steps p ds h db)) task_id =
           get_error m task_id"
  using generate_alerts_task_nothing [OF assms, of steps]
  by (simp add: run_generate_alerts_def wrapper_results wrapper_errors run_task_keeps_records
      get_result_def get_error_def)

lemma down_world_fetch:
  "fetched down_world 3 i = None"
  by (cases i) (simp add: fetched_def fetch_single_district_def down_world_def)

lemma down_world_returned:
  "returned (get_bulk_weather_data down_world ''PUNJAB'' scenario_districts 3 (Some 0) scenario_db) = []"
proof -
  have h: "cache_hit down_world ''PUNJAB'' 3 0 scenario_db n = None" for n
    by (auto simp: cache_hit_def get_raw_weather_cache_def select_live_def down_world_def
        scenario_world_def scenario_db_def lahore_fresh_def multan_stale_def at_def
        split: option.splits if_splits)
  have c: "snd (fold (classify_district down_world ''PUNJAB'' 3 0 scenario_db) scenario_districts ([], [])) = []"
    by (simp add: scenario_districts_def classify_step h)
  have t: "effective_ttl down_world (Some 0) = 0"
    by (simp add: effective_ttl_def)
  show ?thesis
    by (simp add: bulk_unfold t c handle_fold_store down_world_fetch)
qed

text \<open>
  C6. With the upstream API down the fetch of the alert task gives nothing. The task
  then purges nothing and saves nothing, the store is as before; but it returns
  \<^verbatim>\<open>None\<close>, which the runner records in \<^verbatim>\<open>task_results\<close>: the error slot of the
  task stays empty.
\<close>

theorem generate_alerts_failure_lands_in_results:
  "get_result (fst (run_generate_alerts new_manager example_task 1 down_world example_alert_steps
      ''PUNJAB'' scenario_districts 3 scenario_db)) example_task = Some None \<and>
   get_error (fst (run_generate_alerts new_manager example_task 1 down_world example_alert_steps
      ''PUNJAB'' scenario_districts 3 scenario_db)) example_task = None \<and>
   snd (run_generate_alerts new_manager example_task 1 down_world example_alert_steps
      ''PUNJAB'' scenario_districts 3 scenario_db) = scenario_db"
  using run_generate_alerts_nothing [OF down_world_returned, of new_manager example_task 1
      example_alert_steps]
  by (simp add: get_error_def new_manager_def)

end
